theory Spec2Isabelle
  imports Complex_Main "HOL-Library.Sublist"
begin

section \<open>Python strings\<close>

text \<open>
  A Python \<open>str\<close> is a sequence of Unicode code points, so a string is a list of
  code points here, not a list of bytes.  \<open>U\<close> reads an ASCII literal.
\<close>

type_synonym cp = nat
type_synonym ustring = "cp list"

definition U :: "string \<Rightarrow> ustring" where
  "U s = map of_char s"

subsection \<open>The Unicode character database, as far as the program needs it\<close>

text \<open>
  \<open>normalize_upper\<close> calls \<open>unicodedata.normalize("NFD", _)\<close>,
  \<open>unicodedata.category\<close>, \<open>str.upper\<close> and \<open>str.strip\<close>.  Their tables are
  part of CPython, not of the repository.  The definitions below give the entries of the
  Unicode character database for Basic Latin and Latin-1 Supplement (U+0000 to U+00FF),
  the Combining Diacritical Marks (U+0300 to U+036F), and the single code points U+0178,
  U+039C, U+03BC, U+0941, U+1D165 and U+1D16D.  Every other code point is given the
  default entry (no decomposition, combining class 0, not a nonspacing mark, no case
  mapping); this is the database's entry for most of them, not for all.  The white-space
  set is complete.
\<close>

definition canonical_decomposition :: "(cp \<times> ustring) list" where
  "canonical_decomposition =
    [(192, [65, 768]), (193, [65, 769]), (194, [65, 770]), (195, [65, 771]),
     (196, [65, 776]), (197, [65, 778]), (199, [67, 807]), (200, [69, 768]),
     (201, [69, 769]), (202, [69, 770]), (203, [69, 776]), (204, [73, 768]),
     (205, [73, 769]), (206, [73, 770]), (207, [73, 776]), (209, [78, 771]),
     (210, [79, 768]), (211, [79, 769]), (212, [79, 770]), (213, [79, 771]),
     (214, [79, 776]), (217, [85, 768]), (218, [85, 769]), (219, [85, 770]),
     (220, [85, 776]), (221, [89, 769]), (224, [97, 768]), (225, [97, 769]),
     (226, [97, 770]), (227, [97, 771]), (228, [97, 776]), (229, [97, 778]),
     (231, [99, 807]), (232, [101, 768]), (233, [101, 769]), (234, [101, 770]),
     (235, [101, 776]), (236, [105, 768]), (237, [105, 769]), (238, [105, 770]),
     (239, [105, 776]), (241, [110, 771]), (242, [111, 768]), (243, [111, 769]),
     (244, [111, 770]), (245, [111, 771]), (246, [111, 776]), (249, [117, 768]),
     (250, [117, 769]), (251, [117, 770]), (252, [117, 776]), (253, [121, 769]),
     (255, [121, 776]), (376, [89, 776]), (832, [768]), (833, [769]),
     (835, [787]), (836, [776, 769])]"

definition decomp :: "cp \<Rightarrow> ustring" where
  "decomp c = (case map_of canonical_decomposition c of Some d \<Rightarrow> d | None \<Rightarrow> [c])"

definition in_range :: "cp \<Rightarrow> cp \<Rightarrow> cp \<Rightarrow> bool" where
  "in_range lo hi c = (lo \<le> c \<and> c \<le> hi)"

definition ccc_ranges :: "(cp \<times> cp \<times> nat) list" where
  "ccc_ranges =
    [(768, 788, 230), (789, 789, 232), (790, 793, 220), (794, 794, 232),
     (795, 795, 216), (796, 800, 220), (801, 802, 202), (803, 806, 220),
     (807, 808, 202), (809, 819, 220), (820, 824, 1), (825, 828, 220),
     (829, 836, 230), (837, 837, 240), (838, 838, 230), (839, 841, 220),
     (842, 844, 230), (845, 846, 220), (848, 850, 230), (851, 854, 220),
     (855, 855, 230), (856, 856, 232), (857, 858, 220), (859, 859, 230),
     (860, 860, 233), (861, 862, 234), (863, 863, 233), (864, 865, 234),
     (866, 866, 233), (867, 879, 230), (119141, 119141, 216),
     (119149, 119149, 226)]"

text \<open>The canonical combining class, \<open>unicodedata.combining\<close>.\<close>

fun ccc_lookup :: "(cp \<times> cp \<times> nat) list \<Rightarrow> cp \<Rightarrow> nat" where
  "ccc_lookup [] c = 0"
| "ccc_lookup ((lo, hi, v) # rs) c = (if in_range lo hi c then v else ccc_lookup rs c)"

definition ccc :: "cp \<Rightarrow> nat" where
  "ccc c = ccc_lookup ccc_ranges c"

text \<open>\<open>unicodedata.category(ch) == "Mn"\<close>.\<close>

definition is_Mn :: "cp \<Rightarrow> bool" where
  "is_Mn c = (in_range 768 879 c \<or> c = 2369)"

text \<open>
  Canonical ordering: a character with a nonzero combining class moves left past the
  characters before it whose class is greater (none of them is a starter).  The
  accumulator is the output so far, reversed.
\<close>

fun reorder_ins :: "cp \<Rightarrow> ustring \<Rightarrow> ustring" where
  "reorder_ins c [] = [c]"
| "reorder_ins c (y # ys) =
     (if ccc c \<noteq> 0 \<and> ccc c < ccc y then y # reorder_ins c ys else c # y # ys)"

definition canonical_order :: "ustring \<Rightarrow> ustring" where
  "canonical_order s = rev (foldl (\<lambda>acc c. reorder_ins c acc) [] s)"

definition nfd :: "ustring \<Rightarrow> ustring" where
  "nfd s = canonical_order (concat (map decomp s))"

text \<open>\<open>str.upper\<close> and \<open>str.lower\<close>, one code point at a time.\<close>

definition upper_cp :: "cp \<Rightarrow> ustring" where
  "upper_cp c =
     (if in_range 97 122 c then [c - 32]
      else if c = 181 then [924]
      else if c = 223 then [83, 83]
      else if in_range 224 254 c \<and> c \<noteq> 247 then [c - 32]
      else if c = 255 then [376]
      else if c = 837 then [921]
      else if c = 956 then [924]
      else [c])"

definition lower_cp :: "cp \<Rightarrow> ustring" where
  "lower_cp c =
     (if in_range 65 90 c then [c + 32]
      else if in_range 192 222 c \<and> c \<noteq> 215 then [c + 32]
      else if c = 376 then [255]
      else if c = 924 then [956]
      else [c])"

definition py_upper :: "ustring \<Rightarrow> ustring" where
  "py_upper s = concat (map upper_cp s)"

definition py_lower :: "ustring \<Rightarrow> ustring" where
  "py_lower s = concat (map lower_cp s)"

text \<open>The characters \<open>str.strip()\<close> and \<open>str.split()\<close> treat as white space.\<close>

definition is_space :: "cp \<Rightarrow> bool" where
  "is_space c =
     (in_range 9 13 c \<or> in_range 28 32 c \<or> c = 133 \<or> c = 160 \<or> c = 5760
      \<or> in_range 8192 8202 c \<or> c = 8232 \<or> c = 8233 \<or> c = 8239 \<or> c = 8287
      \<or> c = 12288)"

definition py_strip :: "ustring \<Rightarrow> ustring" where
  "py_strip s = rev (dropWhile is_space (rev (dropWhile is_space s)))"

section \<open>Text normalizer\<close>

text \<open>
  \<^verbatim>\<open>
  def normalize_upper(s: str) -> str:
      if not s: return ""
      n = unicodedata.normalize("NFD", s)
      n = "".join(ch for ch in n if unicodedata.category(ch) != "Mn")
      return n.upper().strip()
  \<close>
\<close>

definition normalize_upper :: "ustring \<Rightarrow> ustring" where
  "normalize_upper s =
     (if s = [] then []
      else py_strip (py_upper (filter (\<lambda>ch. \<not> is_Mn ch) (nfd s))))"

text \<open>\<open>not s\<close> also holds for \<open>None\<close>: an absent argument gives the empty string.\<close>

definition normalize_upper_opt :: "ustring option \<Rightarrow> ustring" where
  "normalize_upper_opt s = (case s of None \<Rightarrow> [] | Some x \<Rightarrow> normalize_upper x)"


section \<open>Python's \<open>or\<close>, \<open>in\<close> and \<open>str\<close> on optional strings\<close>

text \<open>A value read with \<open>dict.get\<close> is a string or \<open>None\<close>; both \<open>None\<close> and \<open>""\<close> are falsy.\<close>

definition truthy :: "ustring option \<Rightarrow> bool" where
  "truthy a = (case a of None \<Rightarrow> False | Some s \<Rightarrow> s \<noteq> [])"

definition por :: "ustring option \<Rightarrow> ustring option \<Rightarrow> ustring option" where
  \<comment> \<open>\<open>a or b\<close>\<close>
  "por a b = (if truthy a then a else b)"

definition or_empty :: "ustring option \<Rightarrow> ustring" where
  \<comment> \<open>\<open>a or ""\<close>\<close>
  "or_empty a = (case a of None \<Rightarrow> [] | Some s \<Rightarrow> s)"

definition py_str :: "ustring option \<Rightarrow> ustring" where
  \<comment> \<open>\<open>str(x)\<close>: \<open>str(None)\<close> is the text \<open>None\<close>\<close>
  "py_str a = (case a of None \<Rightarrow> U ''None'' | Some s \<Rightarrow> s)"

text \<open>\<open>a in s\<close> for strings: \<open>a\<close> occurs in \<open>s\<close> as a contiguous piece.\<close>

fun contains :: "'a list \<Rightarrow> 'a list \<Rightarrow> bool" where
  "contains a [] = (a = [])"
| "contains a (x # xs) = (prefix a (x # xs) \<or> contains a xs)"

section \<open>Alias resolver\<close>

datatype canonical_key =
  Client | Zone | Approved_value | Invoice_date | Paid_flag | Paid_date | Paid_amount
  | Priority | Status | Canceled_flag | Canceled_date | Type | Wo_number
  | Materials_cost | Labor_cost

text \<open>\<open>FIELD_ALIASES\<close>; each alias set is listed in the order of the source text.\<close>

fun FIELD_ALIASES :: "canonical_key \<Rightarrow> ustring list" where
  "FIELD_ALIASES Client =
     [U ''CLIENTE'', U ''CLIENT'', U ''CLIENT NAME'', U ''CLIENTE NOMBRE'', U ''CUSTOMER'']"
| "FIELD_ALIASES Zone = [U ''ZONA'', U ''ZONE'']"
| "FIELD_ALIASES Approved_value =
     [U ''VALOR APROBADO'', U ''VALOR TOTAL'', U ''APPROVED AMOUNT'', U ''AMOUNT APPROVED'',
      U ''APPROVED VALUE'']"
| "FIELD_ALIASES Invoice_date =
     [U ''FECHA DE INVOICE'', U ''FECHA FACTURA'', U ''INVOICE ENVIADO'', U ''INVOICE DATE'']"
| "FIELD_ALIASES Paid_flag = [U ''PAGADO'', U ''PAID'']"
| "FIELD_ALIASES Paid_date = [U ''FECHA DE PAGO'', U ''PAID DATE'']"
| "FIELD_ALIASES Paid_amount = [U ''MONTO PAGADO'', U ''PAGADO (MONTO)'', U ''PAID AMOUNT'']"
| "FIELD_ALIASES Priority = [U ''PRIORITY'', U ''PRIORIDAD'']"
| "FIELD_ALIASES Status = [U ''STATUS'', U ''ESTADO'', U ''ESTATUS'']"
| "FIELD_ALIASES Canceled_flag = [U ''CANCELADA'', U ''CANCELED'']"
| "FIELD_ALIASES Canceled_date =
     [U ''FECHA DE CANCELACION'', U ''FECHA DE CANCELACI'' @ [211] @ U ''N'', U ''CANCEL DATE'']"
| "FIELD_ALIASES Type = [U ''TIPO'', U ''TYPE'']"
| "FIELD_ALIASES Wo_number = [U ''WO #'', U ''WO'', U ''WORK ORDER'']"
| "FIELD_ALIASES Materials_cost =
     [U ''GASTO MATERIALES'', U ''MATERIALES'', U ''MATERIAL COST'', U ''COSTO MATERIALES'']"
| "FIELD_ALIASES Labor_cost =
     [U ''GASTO LABOR'', U ''GATOS LABOR'', U ''GASTO MANO DE OBRA'', U ''LABOR COST'',
      U ''MANO DE OBRA'', U ''GASTO LABOUR'', U ''GASTOS LABOR'']"

text \<open>
  \<^verbatim>\<open>
  def _alias_hit(field_name_norm: str, alias_set: set) -> bool:
      if field_name_norm in alias_set:
          return True
      for a in alias_set:
          if a in field_name_norm:
              return True
      return False
  \<close>
\<close>

definition alias_hit :: "ustring \<Rightarrow> ustring list \<Rightarrow> bool" where
  "alias_hit field_name_norm alias_set =
     (if field_name_norm \<in> set alias_set then True
      else list_ex (\<lambda>a. contains a field_name_norm) alias_set)"

section \<open>Money parser\<close>

definition is_digit :: "cp \<Rightarrow> bool" where
  "is_digit c = in_range 48 57 c"

definition digits_val :: "ustring \<Rightarrow> nat" where
  "digits_val ds = foldl (\<lambda>a c. 10 * a + (c - 48)) 0 ds"

text \<open>
  \<open>float(s)\<close> on a string, \<open>None\<close> for \<open>ValueError\<close>.  White space is stripped first:
  in a string of ASCII characters only tab, line feed, vertical tab, form feed, carriage
  return and space count, otherwise every Unicode space.  An underscore must stand
  between two digits.  What remains is an optional sign, digits with an optional point
  (at least one digit), and an optional exponent.  The value is the exact decimal value,
  not its nearest double.  The words \<open>inf\<close>, \<open>infinity\<close> and \<open>nan\<close>, which
  \<open>float\<close> also accepts, have no value among the reals and are not recognised here,
  nor are decimal digits outside ASCII.
\<close>

definition float_space :: "ustring \<Rightarrow> cp \<Rightarrow> bool" where
  "float_space s c =
     (if list_all (\<lambda>x. x < 128) s then in_range 9 13 c \<or> c = 32 else is_space c)"

definition float_strip :: "ustring \<Rightarrow> ustring" where
  "float_strip s = rev (dropWhile (float_space s) (rev (dropWhile (float_space s) s)))"

fun underscores_ok :: "cp \<Rightarrow> ustring \<Rightarrow> bool" where
  "underscores_ok prev [] = (prev \<noteq> 95)"
| "underscores_ok prev (c # cs) =
     ((if c = 95 then is_digit prev else (prev = 95 \<longrightarrow> is_digit c))
      \<and> underscores_ok c cs)"

definition parse_sign :: "ustring \<Rightarrow> bool \<times> ustring" where
  "parse_sign s =
     (case s of [] \<Rightarrow> (False, [])
      | c # r \<Rightarrow> if c = 45 then (True, r) else if c = 43 then (False, r) else (False, s))"

definition parse_exponent :: "ustring \<Rightarrow> int option" where
  "parse_exponent s =
     (case s of [] \<Rightarrow> Some 0
      | c # r \<Rightarrow>
          if c = 101 \<or> c = 69 then
            (let (neg, ds) = parse_sign r
             in if ds \<noteq> [] \<and> list_all is_digit ds
                then Some (if neg then - int (digits_val ds) else int (digits_val ds))
                else None)
          else None)"

definition scale10 :: "real \<Rightarrow> int \<Rightarrow> real" where
  "scale10 x e = (if 0 \<le> e then x * 10 ^ nat e else x / 10 ^ nat (- e))"

definition py_float :: "ustring \<Rightarrow> real option" where
  "py_float s =
     (let t = float_strip s in
      if \<not> underscores_ok 0 t then None
      else
        let (neg, r) = parse_sign (filter (\<lambda>c. c \<noteq> 95) t);
            ip = takeWhile is_digit r;
            r1 = dropWhile is_digit r;
            (fp, r2) = (case r1 of [] \<Rightarrow> ([], [])
                        | c # r' \<Rightarrow> if c = 46 then (takeWhile is_digit r', dropWhile is_digit r')
                                   else ([], r1))
        in if ip = [] \<and> fp = [] then None
           else case parse_exponent r2 of
                  None \<Rightarrow> None
                | Some e \<Rightarrow>
                    let m = real (digits_val ip) + real (digits_val fp) / 10 ^ length fp
                    in Some (scale10 (if neg then - m else m) e))"

text \<open>
  \<^verbatim>\<open>
  def _try_parse_money(raw: Optional[str]) -> Optional[float]:
      if not raw: return None
      s = str(raw).strip().upper()
      s = re.sub(r"[^\\d,.\\-]", "", s)
      if not s: return None
      if "," in s and "." in s:
          try:
              return float(s.replace(",", ""))
          except Exception:
              pass
      if "," in s and "." not in s:
          try:
              return float(s.replace(",", "."))
          except Exception:
              pass
      try:
          return float(s)
      except Exception:
          return None
  \<close>
  The pattern is a raw string, so the regular expression is the eleven characters
  \<^verbatim>\<open>[^\\d,.\\-]\<close>: a negated class whose members are an escaped backslash, the letter
  \<open>d\<close>, comma, period, an escaped backslash again and a final hyphen.  \<open>re.sub\<close>
  deletes every character outside the class, so the characters kept are backslash (92),
  \<open>d\<close> (100), comma (44), period (46) and hyphen (45).
\<close>

definition money_keep :: "cp \<Rightarrow> bool" where
  "money_keep c = (c = 92 \<or> c = 100 \<or> c = 44 \<or> c = 46 \<or> c = 45)"

definition try_parse_money :: "ustring option \<Rightarrow> real option" where
  "try_parse_money raw =
     (case raw of None \<Rightarrow> None
      | Some r \<Rightarrow>
          if r = [] then None
          else
            let s = filter money_keep (py_upper (py_strip r)) in
            if s = [] then None
            else
              let a = (if 44 \<in> set s \<and> 46 \<in> set s
                       then py_float (filter (\<lambda>c. c \<noteq> 44) s) else None);
                  b = (if 44 \<in> set s \<and> 46 \<notin> set s
                       then py_float (map (\<lambda>c. if c = 44 then 46 else c) s) else None)
              in case a of Some v \<Rightarrow> Some v
                 | None \<Rightarrow> (case b of Some v \<Rightarrow> Some v | None \<Rightarrow> py_float s))"

text \<open>
  The money parser as the specification words it: keep digits, comma, period and minus,
  then apply the same decision rule.
\<close>

definition spec_money_keep :: "cp \<Rightarrow> bool" where
  "spec_money_keep c = (is_digit c \<or> c = 44 \<or> c = 46 \<or> c = 45)"

definition parseMoney_spec :: "ustring \<Rightarrow> real option" where
  "parseMoney_spec raw =
     (let s = filter spec_money_keep raw in
      if 44 \<in> set s \<and> 46 \<in> set s then py_float (filter (\<lambda>c. c \<noteq> 44) s)
      else if 44 \<in> set s then py_float (map (\<lambda>c. if c = 44 then 46 else c) s)
      else py_float s)"


section \<open>Dates\<close>

text \<open>
  A calendar date, as \<open>datetime.date\<close> holds it.  Only the date part of a parsed
  time stamp is ever read (\<open>.date()\<close>, \<open>%m/%d/%Y\<close>, \<open>%Y-%m\<close>).
\<close>

record date =
  year :: nat
  month :: nat
  day :: nat

definition date_less :: "date \<Rightarrow> date \<Rightarrow> bool" where
  "date_less a b =
     (year a < year b \<or> (year a = year b \<and> (month a < month b
        \<or> (month a = month b \<and> day a < day b))))"

definition is_leap :: "nat \<Rightarrow> bool" where
  "is_leap y = (y mod 4 = 0 \<and> (y mod 100 \<noteq> 0 \<or> y mod 400 = 0))"

definition days_in_month :: "nat \<Rightarrow> nat \<Rightarrow> nat" where
  "days_in_month y m =
     (if m = 2 then (if is_leap y then 29 else 28)
      else if m = 4 \<or> m = 6 \<or> m = 9 \<or> m = 11 then 30 else 31)"

definition valid_date :: "nat \<Rightarrow> nat \<Rightarrow> nat \<Rightarrow> bool" where
  "valid_date y m d =
     (1 \<le> y \<and> y \<le> 9999 \<and> 1 \<le> m \<and> m \<le> 12 \<and> 1 \<le> d \<and> d \<le> days_in_month y m)"

text \<open>
  \<open>datetime.strptime(s, "%Y-%m-%d")\<close>, \<open>None\<close> for \<open>ValueError\<close>.  The format
  compiles to the pattern \<^verbatim>\<open>(\d\d\d\d)-(1[0-2]|0[1-9]|[1-9])-(3[01]|[12]\d|0[1-9]|[1-9]| [1-9])\<close>,
  matched at the start of the string; the match must use up the whole string, and the
  three numbers must form a date of the calendar.
\<close>

definition strptime_month :: "ustring \<Rightarrow> (nat \<times> ustring) option" where
  \<comment> \<open>the month and the text after the hyphen that follows it\<close>
  "strptime_month s =
     (case s of
        a # b # c # r \<Rightarrow>
          if a = 49 \<and> in_range 48 50 b \<and> c = 45 then Some (10 + (b - 48), r)
          else if a = 48 \<and> in_range 49 57 b \<and> c = 45 then Some (b - 48, r)
          else if in_range 49 57 a \<and> b = 45 then Some (a - 48, c # r)
          else None
      | [a, b] \<Rightarrow> if in_range 49 57 a \<and> b = 45 then Some (a - 48, []) else None
      | _ \<Rightarrow> None)"

definition strptime_day :: "ustring \<Rightarrow> (nat \<times> ustring) option" where
  \<comment> \<open>the first alternative that matches, and the text it leaves\<close>
  "strptime_day s =
     (case s of
        [] \<Rightarrow> None
      | [a] \<Rightarrow> if in_range 49 57 a then Some (a - 48, []) else None
      | a # b # r \<Rightarrow>
          if a = 51 \<and> in_range 48 49 b then Some (30 + (b - 48), r)
          else if in_range 49 50 a \<and> is_digit b then Some (10 * (a - 48) + (b - 48), r)
          else if a = 48 \<and> in_range 49 57 b then Some (b - 48, r)
          else if in_range 49 57 a then Some (a - 48, b # r)
          else if a = 32 \<and> in_range 49 57 b then Some (b - 48, r)
          else None)"

definition strptime_ymd :: "ustring \<Rightarrow> date option" where
  "strptime_ymd s =
     (case s of
        y1 # y2 # y3 # y4 # h # r \<Rightarrow>
          if is_digit y1 \<and> is_digit y2 \<and> is_digit y3 \<and> is_digit y4 \<and> h = 45 then
            (case strptime_month r of
               None \<Rightarrow> None
             | Some (m, r1) \<Rightarrow>
                 (case strptime_day r1 of
                    None \<Rightarrow> None
                  | Some (d, r2) \<Rightarrow>
                      let y = digits_val [y1, y2, y3, y4] in
                      if r2 = [] \<and> valid_date y m d
                      then Some \<lparr>year = y, month = m, day = d\<rparr> else None))
          else None
      | _ \<Rightarrow> None)"

text \<open>
  \<open>strftime\<close>: two digits for month and day, four for the year (the C library of some
  platforms prints a year below 1000 without the leading zeros).
\<close>

definition pad2 :: "nat \<Rightarrow> ustring" where
  "pad2 n = [48 + (n div 10) mod 10, 48 + n mod 10]"

definition pad4 :: "nat \<Rightarrow> ustring" where
  "pad4 n = [48 + (n div 1000) mod 10, 48 + (n div 100) mod 10,
             48 + (n div 10) mod 10, 48 + n mod 10]"

definition strftime_mdY :: "date \<Rightarrow> ustring" where
  \<comment> \<open>\<open>"%m/%d/%Y"\<close>\<close>
  "strftime_mdY d = pad2 (month d) @ [47] @ pad2 (day d) @ [47] @ pad4 (year d)"

definition strftime_Ym :: "date \<Rightarrow> ustring" where
  \<comment> \<open>\<open>"%Y-%m"\<close>\<close>
  "strftime_Ym d = pad4 (year d) @ [45] @ pad2 (month d)"

text \<open>\<open>s.split("T", 1)[0]\<close> when \<open>"T" in s\<close>, else \<open>s\<close>: the text before the first T.\<close>

definition before_T :: "ustring \<Rightarrow> ustring" where
  "before_T s = takeWhile (\<lambda>c. c \<noteq> 84) s"

text \<open>
  \<^verbatim>\<open>
  def _fmt_mmddyyyy(val: str) -> str:
      if not val:
          return ""
      try:
          dt = dateparse.parse(str(val), fuzzy=True)
          return dt.strftime("%m/%d/%Y")
      except Exception:
          s = str(val)
          if "T" in s:
              s = s.split("T", 1)[0]
          try:
              return datetime.strptime(s, "%Y-%m-%d").strftime("%m/%d/%Y")
          except Exception:
              return s
  \<close>
  \<open>dateparse.parse\<close> is the parser of the \<open>dateutil\<close> package.  It is an argument
  here: a function from the text to the date it finds, \<open>None\<close> when it raises.
\<close>

definition fmt_mmddyyyy :: "(ustring \<Rightarrow> date option) \<Rightarrow> ustring \<Rightarrow> ustring" where
  "fmt_mmddyyyy parse_fuzzy val =
     (if val = [] then []
      else case parse_fuzzy val of
             Some dt \<Rightarrow> strftime_mdY dt
           | None \<Rightarrow>
               (let s = before_T val in
                case strptime_ymd s of Some d \<Rightarrow> strftime_mdY d | None \<Rightarrow> s))"

section \<open>Fee table lookup\<close>

text \<open>
  \<^verbatim>\<open>
  def get_fee_pct(fees_map, client: str, ttype: str) -> float:
      c = (client or "").upper()
      tt = (ttype or "").upper()
      if c in fees_map:
          if tt in fees_map[c]:
              return float(fees_map[c][tt])
          if "ANY" in fees_map[c]:
              return float(fees_map[c]["ANY"])
      return 0.0
  \<close>
\<close>

type_synonym fees = "ustring \<rightharpoonup> (ustring \<rightharpoonup> real)"

definition get_fee_pct :: "fees \<Rightarrow> ustring option \<Rightarrow> ustring option \<Rightarrow> real" where
  "get_fee_pct fees_map client ttype =
     (let c = py_upper (or_empty client);
          tt = py_upper (or_empty ttype)
      in case fees_map c of
           None \<Rightarrow> 0
         | Some types \<Rightarrow>
             (case types tt of
                Some pct \<Rightarrow> pct
              | None \<Rightarrow> (case types (U ''ANY'') of Some pct \<Rightarrow> pct | None \<Rightarrow> 0)))"

section \<open>Zone fallback\<close>

datatype py_error = IndexError | ApiException | ZeroDivisionError

text \<open>\<open>str.split()\<close>: the maximal runs of characters that are not white space.\<close>

fun split_ws :: "ustring \<Rightarrow> ustring \<Rightarrow> ustring list" where
  "split_ws cur [] = (if cur = [] then [] else [cur])"
| "split_ws cur (c # cs) =
     (if is_space c then (if cur = [] then split_ws [] cs else cur # split_ws [] cs)
      else split_ws (cur @ [c]) cs)"

definition py_split :: "ustring \<Rightarrow> ustring list" where
  "py_split s = split_ws [] s"

definition strip_commas :: "ustring \<Rightarrow> ustring" where
  \<comment> \<open>\<open>.strip(",")\<close>\<close>
  "strip_commas s = rev (dropWhile (\<lambda>c. c = 44) (rev (dropWhile (\<lambda>c. c = 44) s)))"

text \<open>
  \<^verbatim>\<open>
  def zone_from_project(project_name: str) -> str:
      if not project_name: return ""
      return project_name.split()[-1].strip(",")
  \<close>
  \<open>[-1]\<close> on an empty list raises \<open>IndexError\<close>.
\<close>

definition zone_from_project :: "ustring \<Rightarrow> py_error + ustring" where
  "zone_from_project project_name =
     (if project_name = [] then Inr []
      else case py_split project_name of
             [] \<Rightarrow> Inl IndexError
           | t # ts \<Rightarrow> Inr (strip_commas (last (t # ts))))"

text \<open>
  The zone fallback as the specification words it: the last token, with one trailing
  comma stripped.
\<close>

definition zoneFromProject_spec :: "ustring \<Rightarrow> ustring" where
  "zoneFromProject_spec project_name =
     (case py_split project_name of
        [] \<Rightarrow> []
      | t # ts \<Rightarrow> (let tok = last (t # ts) in
                   if tok \<noteq> [] \<and> last tok = 44 then butlast tok else tok))"


section \<open>Tasks and their custom fields\<close>

text \<open>
  A task is the dictionary the task source returns.  A field read with \<open>.get\<close> is
  optional.  \<open>enum_value\<close> is \<open>None\<close> when the entry is missing, null or empty,
  \<open>Some n\<close> when it is a dictionary whose \<open>name\<close> entry is \<open>n\<close>; the project and
  section of a membership likewise, with the project's \<open>gid\<close> and the section's
  \<open>name\<close>.  A membership that is itself null is \<open>None\<close> in the list.  The lists
  \<open>custom_fields\<close> and \<open>memberships\<close> are empty when the entry is missing or null.
\<close>

record custom_field =
  cf_name :: "ustring option"
  display_value :: "ustring option"
  enum_value :: "ustring option option"
  number_value :: "real option"
  text_value :: "ustring option"

record membership =
  m_project :: "ustring option option"
  m_section :: "ustring option option"

record task =
  t_gid :: "ustring option"
  t_name :: "ustring option"
  t_notes :: "ustring option"
  t_created_at :: "ustring option"
  t_modified_at :: "ustring option"
  t_permalink_url :: "ustring option"
  t_memberships :: "membership option list"
  t_custom_fields :: "custom_field list"

record project =
  p_gid :: ustring
  p_name :: ustring

text \<open>The dictionary \<open>out\<close> of \<open>extract_fields\<close>.\<close>

record fields =
  client :: ustring
  zone :: ustring
  approved_value :: "real option"
  invoice_date :: ustring
  paid_flag :: bool
  paid_date :: ustring
  paid_amount :: "real option"
  priority :: ustring
  status :: ustring
  canceled_flag :: bool
  canceled_date :: ustring
  type :: ustring
  wo_number :: ustring
  materials_cost :: real
  labor_cost :: real

definition init_fields :: fields where
  "init_fields =
     \<lparr>client = [], zone = [], approved_value = None, invoice_date = [], paid_flag = False,
      paid_date = [], paid_amount = None, priority = [], status = [],
      canceled_flag = False, canceled_date = [], type = [], wo_number = [],
      materials_cost = 0, labor_cost = 0\<rparr>"

definition enum_name :: "custom_field \<Rightarrow> ustring option" where
  \<comment> \<open>\<open>(cf.get("enum_value") or {}).get("name")\<close>\<close>
  "enum_name cf = (case enum_value cf of None \<Rightarrow> None | Some n \<Rightarrow> n)"

definition money_of :: "custom_field \<Rightarrow> real option" where
  \<comment> \<open>\<open>num if num is not None else _try_parse_money(disp or text)\<close>\<close>
  "money_of cf =
     (case number_value cf of
        Some num \<Rightarrow> Some num
      | None \<Rightarrow> try_parse_money (por (display_value cf) (text_value cf)))"

definition or_zero :: "real option \<Rightarrow> real" where
  \<comment> \<open>\<open>x or 0.0\<close>\<close>
  "or_zero x = (case x of None \<Rightarrow> 0 | Some v \<Rightarrow> v)"

definition truthy_words :: "ustring list" where
  \<comment> \<open>\<open>{"1","true","yes","s\'i","si"}\<close>, the fourth with U+00ED\<close>
  "truthy_words = [U ''1'', U ''true'', U ''yes'', [115, 237], U ''si'']"

definition flag_text :: "custom_field \<Rightarrow> ustring" where
  \<comment> \<open>\<open>(disp or text or enumn or "").strip().lower()\<close>\<close>
  "flag_text cf =
     py_lower (py_strip (or_empty (por (por (display_value cf) (text_value cf)) (enum_name cf))))"

text \<open>
  The body of the loop over \<open>task["custom_fields"]\<close>: one \<open>if\<close>/\<open>elif\<close> chain,
  in the order of the source.
\<close>

definition extract_step :: "fields \<Rightarrow> custom_field \<Rightarrow> fields" where
  "extract_step out cf =
     (let n = normalize_upper (or_empty (cf_name cf));
          disp = display_value cf;
          enumn = enum_name cf;
          text = text_value cf
      in
      if alias_hit n (FIELD_ALIASES Client) then
        out\<lparr>client := or_empty (por disp text)\<rparr>
      else if alias_hit n (FIELD_ALIASES Zone) then
        out\<lparr>zone := or_empty (por (por disp text) enumn)\<rparr>
      else if alias_hit n (FIELD_ALIASES Approved_value) then
        out\<lparr>approved_value := money_of cf\<rparr>
      else if alias_hit n (FIELD_ALIASES Invoice_date) then
        out\<lparr>invoice_date := py_strip (or_empty (por disp text))\<rparr>
      else if alias_hit n (FIELD_ALIASES Paid_flag) then
        out\<lparr>paid_flag := (flag_text cf \<in> set truthy_words \<or> flag_text cf = U ''paid'')\<rparr>
      else if alias_hit n (FIELD_ALIASES Paid_date) then
        out\<lparr>paid_date := py_strip (or_empty (por disp text))\<rparr>
      else if alias_hit n (FIELD_ALIASES Paid_amount) then
        out\<lparr>paid_amount := money_of cf\<rparr>
      else if alias_hit n (FIELD_ALIASES Priority) then
        out\<lparr>priority := or_empty (por (por enumn disp) text)\<rparr>
      else if alias_hit n (FIELD_ALIASES Status) then
        out\<lparr>status := or_empty (por (por enumn disp) text)\<rparr>
      else if alias_hit n (FIELD_ALIASES Canceled_flag) then
        out\<lparr>canceled_flag :=
              (flag_text cf \<in> set truthy_words \<or> flag_text cf = U ''canceled'')\<rparr>
      else if alias_hit n (FIELD_ALIASES Canceled_date) then
        out\<lparr>canceled_date := py_strip (or_empty (por disp text))\<rparr>
      else if alias_hit n (FIELD_ALIASES Type) then
        out\<lparr>type := py_strip (or_empty (por (por enumn disp) text))\<rparr>
      else if alias_hit n (FIELD_ALIASES Wo_number) then
        out\<lparr>wo_number := py_strip (or_empty (por disp text))\<rparr>
      else if alias_hit n (FIELD_ALIASES Materials_cost) then
        out\<lparr>materials_cost := or_zero (money_of cf)\<rparr>
      else if alias_hit n (FIELD_ALIASES Labor_cost) then
        out\<lparr>labor_cost := or_zero (money_of cf)\<rparr>
      else out)"

text \<open>
  \<^verbatim>\<open>
  def extract_fields(task):
      out = {...}
      for cf in task.get("custom_fields") or []:
          ...
      if not out["wo_number"]:
          out["wo_number"] = wo_from_name(task.get("name") or "")
      return out
  \<close>
  \<open>wo_from_name\<close> and \<open>parse_client_from_text\<close> search the task's name and notes with
  regular expressions.  No property below depends on what they find, so they are
  arguments: functions from the text to the string found.
\<close>

definition extract_fields :: "(ustring \<Rightarrow> ustring) \<Rightarrow> task \<Rightarrow> fields" where
  "extract_fields wo_from_name t =
     (let out = foldl extract_step init_fields (t_custom_fields t)
      in if wo_number out = [] then out\<lparr>wo_number := wo_from_name (or_empty (t_name t))\<rparr>
         else out)"

section \<open>Record assembler and filter\<close>

text \<open>
  What \<open>build_dataframe\<close> takes from outside the repository: the two entry points of
  the \<open>dateutil\<close> parser (\<open>None\<close> when it raises), the two text miners, and the task
  source (\<open>fetch_project_tasks\<close> on the client that \<open>build_clients\<close> made), which
  returns the tasks of a project or fails.
\<close>

record env =
  dateparse :: "ustring \<Rightarrow> date option"
  dateparse_fuzzy :: "ustring \<Rightarrow> date option"
  wo_from_name :: "ustring \<Rightarrow> ustring"
  parse_client_from_text :: "ustring \<Rightarrow> ustring \<Rightarrow> ustring"
  fetch_project_tasks :: "ustring \<Rightarrow> py_error + task list"

record row =
  Project :: ustring
  Zone_col :: ustring
  Type_col :: ustring
  Task_GID :: "ustring option"
  Task_URL :: "ustring option"
  Order_number :: ustring
  Task_Name :: ustring
  Column :: ustring
  Logical_Status :: ustring
  Client_col :: ustring
  Priority_col :: ustring
  Status_CF :: ustring
  Approved_Value :: real
  Valor_Aprobado_Real :: real
  Gasto_Materiales :: real
  Gasto_Labor :: real
  Gastos_Total :: real
  Utilidad :: real
  Utilidad_pct :: real
  Invoice_Date :: ustring
  Invoice_Month :: ustring
  Paid :: bool
  Paid_Date :: ustring
  Paid_Amount :: "real option"
  Created_At :: ustring
  Modified_At :: ustring

definition COLUMN_STATUS_MAP :: "(ustring \<times> ustring) list" where
  "COLUMN_STATUS_MAP =
     [(U ''PROBLEMS IN POR...'', U ''Problems''),
      (U ''PROBLEMS IN PRO...'', U ''Problems''),
      (U ''RECALL'', U ''Recall''),
      (U ''STAND BY'', U ''Stand By''),
      (U ''UNSCHEDULED'', U ''Unscheduled''),
      (U ''SCHEDULED'', U ''Scheduled''),
      (U ''REJECT DP. PROPOSAL'', U ''Rejected Proposal''),
      (U ''WITHOUT PROPOS...'', U ''Without Proposal''),
      (U ''QUALITY CONTROL'', U ''Quality Control''),
      (U ''PENDING INVOICE'', U ''Pending Invoice''),
      (U ''PENDING PAYMENTS'', U ''Pending Payments''),
      (U ''DONE'', U ''Done''),
      (U ''CANCELED'', U ''Canceled'')]"

definition IGNORED_SECTION_TOKENS :: "ustring list" where
  "IGNORED_SECTION_TOKENS = [U ''TRASH'', U ''ARCHIVE'']"

text \<open>
  The loop over the memberships, left at the first one of the current project:
  \<^verbatim>\<open>
  section = ""
  for m in t.get("memberships") or []:
      pr = (m or {}).get("project") or {}
      if str(pr.get("gid")) == pgid:
          sec = (m or {}).get("section") or {}
          section = (sec.get("name") or "").strip()
          break
  \<close>
\<close>

definition membership_gid :: "membership option \<Rightarrow> ustring option" where
  "membership_gid m =
     (case m of None \<Rightarrow> None
      | Some mm \<Rightarrow> (case m_project mm of None \<Rightarrow> None | Some g \<Rightarrow> g))"

definition membership_section :: "membership option \<Rightarrow> ustring option" where
  "membership_section m =
     (case m of None \<Rightarrow> None
      | Some mm \<Rightarrow> (case m_section mm of None \<Rightarrow> None | Some n \<Rightarrow> n))"

fun section_of :: "ustring \<Rightarrow> membership option list \<Rightarrow> ustring" where
  "section_of pgid [] = []"
| "section_of pgid (m # ms) =
     (if py_str (membership_gid m) = pgid then py_strip (or_empty (membership_section m))
      else section_of pgid ms)"

definition project_type :: "ustring \<Rightarrow> ustring" where
  \<comment> \<open>\<open>"WO" if "(WO)" in pname.upper() else ("PO" if "(PO)" in pname.upper() else "")\<close>\<close>
  "project_type pname =
     (if contains (U ''(WO)'') (py_upper pname) then U ''WO''
      else if contains (U ''(PO)'') (py_upper pname) then U ''PO'' else [])"

text \<open>
  The two \<open>continue\<close> statements at the head of the loop over the tasks
  (a \<open>date\<close> object is always truthy, so \<open>if cutoff_date\<close> asks whether there is one).
\<close>

definition ignored_section :: "ustring \<Rightarrow> bool" where
  "ignored_section section =
     list_ex (\<lambda>tok. contains tok (normalize_upper section)) IGNORED_SECTION_TOKENS"

definition before_cutoff :: "env \<Rightarrow> date option \<Rightarrow> ustring \<Rightarrow> task \<Rightarrow> bool" where
  "before_cutoff e cutoff_date section t =
     (case cutoff_date of
        None \<Rightarrow> False
      | Some cutoff \<Rightarrow>
          (let sec_norm = normalize_upper section in
           if contains (U ''DONE'') sec_norm \<or> contains (U ''CANCEL'') sec_norm then
             (let ts = or_empty (por (t_modified_at t) (t_created_at t))
              in case dateparse e ts of None \<Rightarrow> False | Some d \<Rightarrow> date_less d cutoff)
           else False))"

text \<open>\<open>a / b\<close> on floats raises \<open>ZeroDivisionError\<close> when \<open>b\<close> is zero.\<close>

definition py_truediv :: "real \<Rightarrow> real \<Rightarrow> py_error + real" where
  "py_truediv a b = (if b = 0 then Inl ZeroDivisionError else Inr (a / b))"

text \<open>
  The body of the loop over the tasks of one project, after the two \<open>continue\<close>
  statements: from \<open>cf = extract_fields(t)\<close> to \<open>rows.append({...})\<close>.  The result
  is the record appended, or the exception raised on the way.
\<close>

definition assemble_row ::
  "env \<Rightarrow> fees \<Rightarrow> project \<Rightarrow> ustring \<Rightarrow> ustring \<Rightarrow> ustring \<Rightarrow> task \<Rightarrow> py_error + row"
  where
  "assemble_row e fees_map p project_zone ttype section t =
     (let cf0 = extract_fields (wo_from_name e) t;
          cf1 = (if zone cf0 = [] then cf0\<lparr>zone := project_zone\<rparr> else cf0);
          parsed_client = parse_client_from_text e (or_empty (t_name t)) (or_empty (t_notes t));
          cf = (if client cf1 = [] \<and> parsed_client \<noteq> []
                then cf1\<lparr>client := parsed_client\<rparr> else cf1);
          approved = or_zero (approved_value cf);
          fee_pct = get_fee_pct fees_map (Some (client cf)) (Some ttype);
          approved_real = approved * (1 - fee_pct);
          materials = materials_cost cf;
          labor = labor_cost cf;
          gastos_total = materials + labor;
          profit = approved_real - gastos_total;
          profit_pct = (if approved_real \<noteq> 0 then py_truediv profit approved_real
                        else Inr 0);
          invoice_month =
            (if invoice_date cf \<noteq> [] then
               (case dateparse_fuzzy e (invoice_date cf) of
                  Some dt \<Rightarrow> strftime_Ym dt | None \<Rightarrow> [])
             else [])
      in
      case profit_pct of
        Inl err \<Rightarrow> Inl err
      | Inr pct \<Rightarrow>
        Inr
        \<lparr>Project = p_name p,
         Zone_col = zone cf,
         Type_col = (if type cf \<noteq> [] then type cf else ttype),
         Task_GID = t_gid t,
         Task_URL = t_permalink_url t,
         Order_number = py_strip (wo_number cf),
         Task_Name = or_empty (t_name t),
         Column = section,
         Logical_Status =
           (case map_of COLUMN_STATUS_MAP (normalize_upper section) of
              Some st \<Rightarrow> st | None \<Rightarrow> section),
         Client_col = client cf,
         Priority_col = priority cf,
         Status_CF = status cf,
         Approved_Value = approved,
         Valor_Aprobado_Real = approved_real,
         Gasto_Materiales = materials,
         Gasto_Labor = labor,
         Gastos_Total = gastos_total,
         Utilidad = profit,
         Utilidad_pct = pct,
         Invoice_Date = fmt_mmddyyyy (dateparse_fuzzy e) (invoice_date cf),
         Invoice_Month = invoice_month,
         Paid = (paid_flag cf \<or> paid_date cf \<noteq> []),
         Paid_Date = fmt_mmddyyyy (dateparse_fuzzy e) (paid_date cf),
         Paid_Amount = paid_amount cf,
         Created_At = or_empty (t_created_at t),
         Modified_At = or_empty (t_modified_at t)\<rparr>)"

text \<open>The whole body of that loop; \<open>None\<close> is \<open>continue\<close>.\<close>

definition build_row ::
  "env \<Rightarrow> date option \<Rightarrow> fees \<Rightarrow> project \<Rightarrow> ustring \<Rightarrow> ustring \<Rightarrow> task
     \<Rightarrow> (py_error + row) option" where
  "build_row e cutoff_date fees_map p project_zone ttype t =
     (let section = section_of (p_gid p) (t_memberships t) in
      if ignored_section section then None
      else if before_cutoff e cutoff_date section t then None
      else Some (assemble_row e fees_map p project_zone ttype section t))"

text \<open>
  The loop over the tasks of one project: the records appended, in order, unless a task
  raises.
\<close>

fun project_rows :: "(task \<Rightarrow> (py_error + row) option) \<Rightarrow> task list \<Rightarrow> py_error + row list" where
  "project_rows body [] = Inr []"
| "project_rows body (t # ts) =
     (case body t of
        None \<Rightarrow> project_rows body ts
      | Some (Inl err) \<Rightarrow> Inl err
      | Some (Inr r) \<Rightarrow>
          (case project_rows body ts of Inl err \<Rightarrow> Inl err | Inr rs \<Rightarrow> Inr (r # rs)))"

text \<open>
  The loop over the projects.  \<open>zone_from_project\<close> is called before the tasks are
  fetched; an exception anywhere ends the run.
\<close>

fun build_rows :: "env \<Rightarrow> date option \<Rightarrow> fees \<Rightarrow> project list \<Rightarrow> py_error + row list" where
  "build_rows e cutoff_date fees_map [] = Inr []"
| "build_rows e cutoff_date fees_map (p # ps) =
     (case zone_from_project (p_name p) of
        Inl err \<Rightarrow> Inl err
      | Inr project_zone \<Rightarrow>
          (case fetch_project_tasks e (p_gid p) of
             Inl err \<Rightarrow> Inl err
           | Inr tasks \<Rightarrow>
               (case project_rows (build_row e cutoff_date fees_map p project_zone
                                     (project_type (p_name p))) tasks of
                  Inl err \<Rightarrow> Inl err
                | Inr rows \<Rightarrow>
                    (case build_rows e cutoff_date fees_map ps of
                       Inl err \<Rightarrow> Inl err
                     | Inr rest \<Rightarrow> Inr (rows @ rest)))))"

definition cutoff_of :: "env \<Rightarrow> ustring \<Rightarrow> date option" where
  \<comment> \<open>\<open>cutoff_date\<close>: \<open>None\<close> when \<open>done_cutoff\<close> is empty or does not parse\<close>
  "cutoff_of e done_cutoff = (if done_cutoff = [] then None else dateparse e done_cutoff)"

definition build_dataframe :: "env \<Rightarrow> project list \<Rightarrow> ustring \<Rightarrow> fees \<Rightarrow> py_error + row list" where
  "build_dataframe e projects done_cutoff fees_map =
     build_rows e (cutoff_of e done_cutoff) fees_map projects"

section \<open>Auxiliary notions for the proofs\<close>

text \<open>
  A code point is stable when the normalizer leaves it alone: it has no decomposition,
  is a starter, is not a nonspacing mark and is its own upper case.  \<open>norm_cp\<close> is what
  the normalizer makes of one code point on its own.
\<close>

definition stable :: "cp \<Rightarrow> bool" where
  "stable c = (decomp c = [c] \<and> ccc c = 0 \<and> \<not> is_Mn c \<and> upper_cp c = [c])"

definition norm_cp :: "cp \<Rightarrow> ustring" where
  "norm_cp c = py_upper (filter (\<lambda>ch. \<not> is_Mn ch) (decomp c))"

text \<open>
  The decision rule of the money parser in the words of the specification: with both
  comma and period the commas are removed; with only a comma it becomes the period;
  otherwise the text is parsed as it is.
\<close>

definition decision_rule :: "ustring \<Rightarrow> real option" where
  "decision_rule s =
     (if 44 \<in> set s \<and> 46 \<in> set s then py_float (filter (\<lambda>c. c \<noteq> 44) s)
      else if 44 \<in> set s then py_float (map (\<lambda>c. if c = 44 then 46 else c) s)
      else py_float s)"

text \<open>
  A stand-in for the \<open>dateutil\<close> parser in the closed examples below: it reads ISO
  dates and time stamps (\<open>2024-03-15\<close>, \<open>2024-03-15T10:00:00\<close>) and nothing else.
  On those texts, and on a text without any date, it returns what \<open>dateutil\<close> returns.
\<close>

definition iso_dateparse :: "ustring \<Rightarrow> date option" where
  "iso_dateparse s = strptime_ymd (before_T s)"

text \<open>A fee table for the closed examples.\<close>

definition demo_fees :: fees where
  "demo_fees = [U ''ACME'' \<mapsto> [U ''WO'' \<mapsto> 1 / 10, U ''ANY'' \<mapsto> 1 / 20],
                U ''BOLT'' \<mapsto> [U ''PO'' \<mapsto> 1 / 4]]"

text \<open>
  The value a canonical key holds in the field map, whatever its type, and the canonical
  keys in the order of the \<open>if\<close>/\<open>elif\<close> chain.  \<open>resolves cf k\<close>: the label of the
  custom field \<open>cf\<close>, normalized, hits the alias set of \<open>k\<close>.
\<close>

datatype field_value = Text ustring | Number "real option" | Flag bool

fun get_field :: "canonical_key \<Rightarrow> fields \<Rightarrow> field_value" where
  "get_field Client f = Text (client f)"
| "get_field Zone f = Text (zone f)"
| "get_field Approved_value f = Number (approved_value f)"
| "get_field Invoice_date f = Text (invoice_date f)"
| "get_field Paid_flag f = Flag (paid_flag f)"
| "get_field Paid_date f = Text (paid_date f)"
| "get_field Paid_amount f = Number (paid_amount f)"
| "get_field Priority f = Text (priority f)"
| "get_field Status f = Text (status f)"
| "get_field Canceled_flag f = Flag (canceled_flag f)"
| "get_field Canceled_date f = Text (canceled_date f)"
| "get_field Type f = Text (type f)"
| "get_field Wo_number f = Text (wo_number f)"
| "get_field Materials_cost f = Number (Some (materials_cost f))"
| "get_field Labor_cost f = Number (Some (labor_cost f))"

definition canonical_keys :: "canonical_key list" where
  "canonical_keys =
     [Client, Zone, Approved_value, Invoice_date, Paid_flag, Paid_date, Paid_amount,
      Priority, Status, Canceled_flag, Canceled_date, Type, Wo_number, Materials_cost,
      Labor_cost]"

definition resolves :: "custom_field \<Rightarrow> canonical_key \<Rightarrow> bool" where
  "resolves cf k = alias_hit (normalize_upper (or_empty (cf_name cf))) (FIELD_ALIASES k)"

text \<open>What the branch of one canonical key stores.\<close>

fun assign :: "canonical_key \<Rightarrow> custom_field \<Rightarrow> fields \<Rightarrow> fields" where
  "assign Client cf out = out\<lparr>client := or_empty (por (display_value cf) (text_value cf))\<rparr>"
| "assign Zone cf out =
     out\<lparr>zone := or_empty (por (por (display_value cf) (text_value cf)) (enum_name cf))\<rparr>"
| "assign Approved_value cf out = out\<lparr>approved_value := money_of cf\<rparr>"
| "assign Invoice_date cf out =
     out\<lparr>invoice_date := py_strip (or_empty (por (display_value cf) (text_value cf)))\<rparr>"
| "assign Paid_flag cf out =
     out\<lparr>paid_flag := (flag_text cf \<in> set truthy_words \<or> flag_text cf = U ''paid'')\<rparr>"
| "assign Paid_date cf out =
     out\<lparr>paid_date := py_strip (or_empty (por (display_value cf) (text_value cf)))\<rparr>"
| "assign Paid_amount cf out = out\<lparr>paid_amount := money_of cf\<rparr>"
| "assign Priority cf out =
     out\<lparr>priority := or_empty (por (por (enum_name cf) (display_value cf)) (text_value cf))\<rparr>"
| "assign Status cf out =
     out\<lparr>status := or_empty (por (por (enum_name cf) (display_value cf)) (text_value cf))\<rparr>"
| "assign Canceled_flag cf out =
     out\<lparr>canceled_flag := (flag_text cf \<in> set truthy_words \<or> flag_text cf = U ''canceled'')\<rparr>"
| "assign Canceled_date cf out =
     out\<lparr>canceled_date := py_strip (or_empty (por (display_value cf) (text_value cf)))\<rparr>"
| "assign Type cf out =
     out\<lparr>type := py_strip (or_empty (por (por (enum_name cf) (display_value cf)) (text_value cf)))\<rparr>"
| "assign Wo_number cf out =
     out\<lparr>wo_number := py_strip (or_empty (por (display_value cf) (text_value cf)))\<rparr>"
| "assign Materials_cost cf out = out\<lparr>materials_cost := or_zero (money_of cf)\<rparr>"
| "assign Labor_cost cf out = out\<lparr>labor_cost := or_zero (money_of cf)\<rparr>"

text \<open>A custom field labelled \<open>Paid Date\<close>, for the closed examples.\<close>

definition demo_cf :: custom_field where
  "demo_cf = \<lparr>cf_name = Some (U ''Paid Date''), display_value = Some (U ''2024-01-05''),
              enum_value = None, number_value = None, text_value = Some (U ''2024-01-05'')\<rparr>"

text \<open>
  Inputs for the closed examples: custom fields holding a text or a number, a task of
  project \<open>1\<close> in a given section, the project of the end-to-end example, and an
  environment whose task source returns the given tasks for project \<open>1\<close>.  In it the
  dates are read by \<open>iso_dateparse\<close> and the two text miners find nothing, which is
  what the repository's miners return on the name \<open>Install sign\<close> with no notes.
\<close>

definition text_cf :: "ustring \<Rightarrow> ustring \<Rightarrow> custom_field" where
  "text_cf label v =
     \<lparr>cf_name = Some label, display_value = Some v, enum_value = None,
      number_value = None, text_value = Some v\<rparr>"

definition number_cf :: "ustring \<Rightarrow> real \<Rightarrow> ustring \<Rightarrow> custom_field" where
  "number_cf label x shown =
     \<lparr>cf_name = Some label, display_value = Some shown, enum_value = None,
      number_value = Some x, text_value = None\<rparr>"

definition demo_task :: "ustring \<Rightarrow> ustring \<Rightarrow> custom_field list \<Rightarrow> task" where
  "demo_task section modified cfs =
     \<lparr>t_gid = Some (U ''100''), t_name = Some (U ''Install sign''), t_notes = None,
      t_created_at = Some (U ''2024-01-02T09:00:00.000Z''), t_modified_at = Some modified,
      t_permalink_url = None,
      t_memberships = [Some \<lparr>m_project = Some (Some (U ''1'')), m_section = Some (Some section)\<rparr>],
      t_custom_fields = cfs\<rparr>"

definition demo_project :: project where
  "demo_project = \<lparr>p_gid = U ''1'', p_name = U ''Zone North (WO)''\<rparr>"

definition demo_env :: "task list \<Rightarrow> env" where
  "demo_env tasks =
     \<lparr>dateparse = iso_dateparse, dateparse_fuzzy = iso_dateparse,
      wo_from_name = (\<lambda>name. []), parse_client_from_text = (\<lambda>name notes. []),
      fetch_project_tasks = (\<lambda>gid. if gid = U ''1'' then Inr tasks else Inr [])\<rparr>"

text \<open>
  The end-to-end example: the task's custom fields (the three amounts are numbers, held in
  \<open>number_value\<close>), its membership of project \<open>1\<close> in section \<open>SCHEDULED\<close>, the
  fee table, and the environment whose task source returns that task.  Then a task with
  no custom field, one with a negative cost and one with a payment date only.
\<close>

definition e2e_fields :: "custom_field list" where
  "e2e_fields =
     [text_cf (U ''CLIENTE'') (U ''Acme''),
      number_cf (U ''VALOR APROBADO'') 1000 (U ''1000''),
      number_cf (U ''GASTO MATERIALES'') 200 (U ''200''),
      number_cf (U ''GASTO LABOR'') 100 (U ''100'')]"

definition e2e_memberships :: "membership option list" where
  "e2e_memberships =
     [Some \<lparr>m_project = Some (Some (U ''1'')), m_section = Some (Some (U ''SCHEDULED''))\<rparr>]"

definition e2e_task :: task where
  "e2e_task = demo_task (U ''SCHEDULED'') (U ''2024-01-10T08:00:00.000Z'') e2e_fields"

definition e2e_fees :: fees where
  "e2e_fees = [U ''ACME'' \<mapsto> [U ''WO'' \<mapsto> 1 / 10]]"

definition e2e_env :: env where
  "e2e_env = demo_env [e2e_task]"

definition bare_task :: task where
  "bare_task = demo_task (U ''SCHEDULED'') (U ''2024-01-10T08:00:00.000Z'') []"

definition negative_task :: task where
  "negative_task =
     demo_task (U ''SCHEDULED'') (U ''2024-01-10T08:00:00.000Z'')
       [number_cf (U ''GASTO MATERIALES'') (- 5) (U ''-5'')]"

definition paid_task :: task where
  "paid_task =
     demo_task (U ''SCHEDULED'') (U ''2024-01-10T08:00:00.000Z'')
       [text_cf (U ''Fecha de pago'') (U ''01/05/2024'')]"

section \<open>Strings: substrings and aliases\<close>

lemma contains_iff: "contains a s \<longleftrightarrow> (\<exists>p q. s = p @ a @ q)"
proof (induction s)
  case Nil
  then show ?case by auto
next
  case (Cons x xs)
  show ?case
  proof
    assume "contains a (x # xs)"
    then consider "prefix a (x # xs)" | "contains a xs" by auto
    then show "\<exists>p q. x # xs = p @ a @ q"
    proof cases
      case 1
      then obtain q where "x # xs = a @ q" by (auto simp: prefix_def)
      then have "x # xs = [] @ a @ q" by simp
      then show ?thesis by blast
    next
      case 2
      with Cons.IH obtain p q where "xs = p @ a @ q" by blast
      then have "x # xs = (x # p) @ a @ q" by simp
      then show ?thesis by blast
    qed
  next
    assume "\<exists>p q. x # xs = p @ a @ q"
    then obtain p q where pq: "x # xs = p @ a @ q" by blast
    show "contains a (x # xs)"
    proof (cases p)
      case Nil
      with pq have "prefix a (x # xs)" by (simp add: prefix_def)
      then show ?thesis by simp
    next
      case (Cons y p')
      with pq have "xs = p' @ a @ q" by simp
      with Cons.IH have "contains a xs" by blast
      then show ?thesis by simp
    qed
  qed
qed

lemma alias_hit_iff:
  "alias_hit n A \<longleftrightarrow> n \<in> set A \<or> (\<exists>a\<in>set A. \<exists>p q. n = p @ a @ q)"
  by (auto simp: alias_hit_def list_ex_iff contains_iff)

lemma reorder_ins_starter: "ccc c = 0 \<Longrightarrow> reorder_ins c acc = c # acc"
  by (cases acc) auto

lemma filter_reorder_ins:
  "(ccc c \<noteq> 0 \<longrightarrow> \<not> P c) \<Longrightarrow> filter P (reorder_ins c acc) = filter P (c # acc)"
  by (induction acc) auto

lemma filter_reorder_foldl:
  "\<forall>c\<in>set s. ccc c \<noteq> 0 \<longrightarrow> \<not> P c \<Longrightarrow>
   filter P (foldl (\<lambda>acc c. reorder_ins c acc) acc s) = rev (filter P s) @ filter P acc"
proof (induction s arbitrary: acc)
  case Nil
  then show ?case by simp
next
  case (Cons x xs)
  then have "filter P (reorder_ins x acc) = filter P (x # acc)"
    by (simp add: filter_reorder_ins)
  with Cons show ?case by simp
qed

lemma filter_canonical_order:
  "\<forall>c\<in>set s. ccc c \<noteq> 0 \<longrightarrow> \<not> P c \<Longrightarrow> filter P (canonical_order s) = filter P s"
  by (simp add: canonical_order_def filter_reorder_foldl rev_filter [symmetric])

lemma decomp_below_192: "c < 192 \<Longrightarrow> decomp c = [c]"
  by (simp add: decomp_def canonical_decomposition_def)

lemma ccc_below_768: "c < 768 \<Longrightarrow> ccc c = 0"
  by (simp add: ccc_def ccc_ranges_def in_range_def)

lemma not_Mn_below_768: "c < 768 \<Longrightarrow> \<not> is_Mn c"
  by (simp add: is_Mn_def in_range_def)



lemma stable_below_192:
  "c < 192 \<Longrightarrow> \<not> in_range 97 122 c \<Longrightarrow> c \<noteq> 181 \<Longrightarrow> stable c"
  by (auto simp: stable_def decomp_below_192 ccc_below_768 not_Mn_below_768 upper_cp_def in_range_def)

lemma decomp_924: "decomp 924 = [924]"
  by (simp add: decomp_def canonical_decomposition_def)

lemma ccc_924: "ccc 924 = 0"
  by (simp add: ccc_def ccc_ranges_def in_range_def)

lemma stable_924: "stable 924"
  by (simp add: stable_def decomp_924 ccc_924 is_Mn_def upper_cp_def in_range_def)

lemma upper_stable_below_192: "d < 192 \<Longrightarrow> list_all stable (upper_cp d)"
proof -
  assume d: "d < 192"
  consider "in_range 97 122 d" | "d = 181" | "\<not> in_range 97 122 d" "d \<noteq> 181" by blast
  then show ?thesis
  proof cases
    case 1
    then have "upper_cp d = [d - 32]" by (simp add: upper_cp_def)
    moreover have "stable (d - 32)"
      using 1 by (intro stable_below_192) (auto simp: in_range_def)
    ultimately show ?thesis by simp
  next
    case 2
    then show ?thesis by (simp add: upper_cp_def in_range_def stable_924)
  next
    case 3
    then have "upper_cp d = [d]" using d by (auto simp: upper_cp_def in_range_def)
    with 3 d show ?thesis by (simp add: stable_below_192)
  qed
qed

lemma table_values:
  "list_all (\<lambda>(k, v). k < 256 \<longrightarrow> list_all (\<lambda>d. d < 128 \<or> in_range 768 879 d) v)
     canonical_decomposition"
  by (simp add: canonical_decomposition_def in_range_def)

lemma table_keys_sym:
  "list_all (\<lambda>c. map_of canonical_decomposition c = None \<longrightarrow>
                 map_of canonical_decomposition (c - 32) = None) [224..<255]"
  by (simp add: upt_rec_numeral canonical_decomposition_def)


lemma decomp_cases:
  assumes "c < 256"
  shows "decomp c = [c] \<and> map_of canonical_decomposition c = None
         \<or> list_all (\<lambda>d. d < 128 \<or> in_range 768 879 d) (decomp c)"
proof (cases "map_of canonical_decomposition c")
  case None
  then show ?thesis by (simp add: decomp_def)
next
  case (Some v)
  then have "(c, v) \<in> set canonical_decomposition" by (rule map_of_SomeD)
  with table_values assms have "list_all (\<lambda>d. d < 128 \<or> in_range 768 879 d) v"
    by (auto simp: list_all_iff)
  with Some show ?thesis by (simp add: decomp_def)
qed

lemma upper_stable_undecomposed:
  assumes c: "c < 256" and n: "map_of canonical_decomposition c = None"
  shows "list_all stable (upper_cp c)"
proof (cases "c < 192")
  case True
  then show ?thesis by (rule upper_stable_below_192)
next
  case False
  have st: "stable x" if "192 \<le> x" "x < 256" "map_of canonical_decomposition x = None"
    "upper_cp x = [x]" for x
    using that by (simp add: stable_def decomp_def ccc_below_768 not_Mn_below_768)
  have n255: "c \<noteq> 255" using n by (auto simp: canonical_decomposition_def)
  consider "c = 223" | "in_range 224 254 c" "c \<noteq> 247" | "c \<noteq> 223" "\<not> (in_range 224 254 c \<and> c \<noteq> 247)"
    by blast
  then show ?thesis
  proof cases
    case 1
    have "stable 83" by (rule stable_below_192) (simp_all add: in_range_def)
    with 1 show ?thesis by (simp add: upper_cp_def in_range_def)
  next
    case 2
    then have up: "upper_cp c = [c - 32]" by (simp add: upper_cp_def in_range_def)
    from 2 have "c \<in> {224..<255}" by (simp add: in_range_def)
    then have "c \<in> set [224..<255]" by (simp only: set_upt)
    moreover from table_keys_sym
    have "\<forall>c\<in>set [224..<255]. map_of canonical_decomposition c = None \<longrightarrow>
            map_of canonical_decomposition (c - 32) = None"
      by (simp only: list_all_iff)
    ultimately have "map_of canonical_decomposition (c - 32) = None" using n by blast
    moreover have "upper_cp (c - 32) = [c - 32]"
      using 2 by (auto simp: upper_cp_def in_range_def)
    ultimately have "stable (c - 32)" using 2 by (intro st) (auto simp: in_range_def)
    with up show ?thesis by simp
  next
    case 3
    with False n255 c have up: "upper_cp c = [c]" by (auto simp: upper_cp_def in_range_def)
    with False c n have "stable c" by (intro st) auto
    with up show ?thesis by simp
  qed
qed

lemma norm_cp_stable: "c < 256 \<Longrightarrow> list_all stable (norm_cp c)"
proof -
  assume c: "c < 256"
  from decomp_cases [OF c] show ?thesis
  proof
    assume a: "decomp c = [c] \<and> map_of canonical_decomposition c = None"
    with c have "norm_cp c = upper_cp c"
      by (simp add: norm_cp_def not_Mn_below_768 py_upper_def)
    with a c show ?thesis by (simp add: upper_stable_undecomposed)
  next
    assume a: "list_all (\<lambda>d. d < 128 \<or> in_range 768 879 d) (decomp c)"
    have "list_all stable (py_upper (filter (\<lambda>ch. \<not> is_Mn ch) v))"
      if "list_all (\<lambda>d. d < 128 \<or> in_range 768 879 d) v" for v
      using that
    proof (induction v)
      case Nil
      then show ?case by (simp add: py_upper_def)
    next
      case (Cons d v)
      then have IH: "list_all stable (py_upper (filter (\<lambda>ch. \<not> is_Mn ch) v))" by simp
      from Cons.prems consider "d < 128" | "in_range 768 879 d" by auto
      then show ?case
      proof cases
        case 1
        then have "\<not> is_Mn d" "list_all stable (upper_cp d)"
          by (simp_all add: not_Mn_below_768 upper_stable_below_192)
        with IH show ?thesis by (simp add: py_upper_def)
      next
        case 2
        then have "is_Mn d" by (simp add: is_Mn_def)
        with IH show ?thesis by simp
      qed
    qed
    from this [OF a] show ?thesis by (simp add: norm_cp_def)
  qed
qed

lemma decomp_marks: "c < 256 \<Longrightarrow> d \<in> set (decomp c) \<Longrightarrow> ccc d \<noteq> 0 \<Longrightarrow> is_Mn d"
proof -
  assume c: "c < 256" and d: "d \<in> set (decomp c)" and nz: "ccc d \<noteq> 0"
  from decomp_cases [OF c] show ?thesis
  proof
    assume "decomp c = [c] \<and> map_of canonical_decomposition c = None"
    with d c have "d < 768" by simp
    with nz show ?thesis by (simp add: ccc_below_768)
  next
    assume "list_all (\<lambda>d. d < 128 \<or> in_range 768 879 d) (decomp c)"
    with d have "d < 128 \<or> in_range 768 879 d" by (auto simp: list_all_iff)
    with nz show ?thesis by (auto simp: ccc_below_768 is_Mn_def)
  qed
qed

lemma normalize_upper_latin1:
  assumes "\<forall>c\<in>set s. c < 256"
  shows "normalize_upper s = py_strip (concat (map norm_cp s))"
proof -
  have "\<forall>d\<in>set (concat (map decomp s)). ccc d \<noteq> 0 \<longrightarrow> \<not> \<not> is_Mn d"
    using assms by (auto dest: decomp_marks)
  then have "filter (\<lambda>ch. \<not> is_Mn ch) (nfd s) = filter (\<lambda>ch. \<not> is_Mn ch) (concat (map decomp s))"
    unfolding nfd_def by (rule filter_canonical_order)
  moreover have "py_upper (filter (\<lambda>ch. \<not> is_Mn ch) (concat (map decomp s))) =
      concat (map norm_cp s)"
    by (induction s) (simp_all add: py_upper_def norm_cp_def)
  ultimately have "py_upper (filter (\<lambda>ch. \<not> is_Mn ch) (nfd s)) = concat (map norm_cp s)"
    by simp
  then show ?thesis by (simp add: normalize_upper_def py_strip_def)
qed

lemma normalize_upper_stable:
  assumes "\<forall>c\<in>set r. stable c"
  shows "normalize_upper r = py_strip r"
proof -
  from assms have dec: "concat (map decomp r) = r"
    by (induction r) (auto simp: stable_def)
  from assms have "\<forall>d\<in>set r. ccc d \<noteq> 0 \<longrightarrow> \<not> \<not> is_Mn d" by (auto simp: stable_def)
  then have "filter (\<lambda>ch. \<not> is_Mn ch) (canonical_order r) = filter (\<lambda>ch. \<not> is_Mn ch) r"
    by (rule filter_canonical_order)
  moreover from assms have "filter (\<lambda>ch. \<not> is_Mn ch) r = r"
    by (induction r) (auto simp: stable_def)
  moreover from assms have "py_upper r = r"
    by (induction r) (auto simp: stable_def py_upper_def)
  ultimately show ?thesis by (simp add: normalize_upper_def nfd_def dec py_strip_def)
qed

lemma set_py_strip: "set (py_strip s) \<subseteq> set s"
  by (auto simp: py_strip_def dest!: set_dropWhileD)

lemma dropWhile_rev_dropWhile:
  "dropWhile P (rev (dropWhile P (rev (dropWhile P s)))) = rev (dropWhile P (rev (dropWhile P s)))"
proof (cases "dropWhile P (rev (dropWhile P s)) = []")
  case True
  show ?thesis unfolding True by simp
next
  case False
  define t where "t = dropWhile P s"
  define u where "u = dropWhile P (rev t)"
  from False have u: "u \<noteq> []" by (simp add: u_def t_def)
  then have t: "t \<noteq> []" by (auto simp: u_def)
  then have "\<not> P (hd t)" unfolding t_def by (rule hd_dropWhile)
  moreover have "last u = hd t"
  proof -
    obtain ys where "rev t = ys @ u" unfolding u_def
      by (metis takeWhile_dropWhile_id)
    with u have "last (rev t) = last u" by simp
    with t show ?thesis by (simp add: last_rev)
  qed
  ultimately have "\<not> P (hd (rev u))" using u by (simp add: hd_rev)
  with u have "dropWhile P (rev u) = rev u" by (cases "rev u") auto
  then show ?thesis by (simp add: u_def t_def)
qed

lemma py_strip_idem: "py_strip (py_strip s) = py_strip s"
  by (simp add: py_strip_def dropWhile_rev_dropWhile dropWhile_idem)

lemma normalize_upper_idem_latin1:
  assumes "\<forall>c\<in>set s. c < 256"
  shows "normalize_upper (normalize_upper s) = normalize_upper s"
proof -
  let ?X = "concat (map norm_cp s)"
  have "\<forall>c\<in>set ?X. stable c" using assms norm_cp_stable by (auto simp: list_all_iff)
  then have "\<forall>c\<in>set (py_strip ?X). stable c" using set_py_strip by blast
  then have "normalize_upper (py_strip ?X) = py_strip (py_strip ?X)"
    by (rule normalize_upper_stable)
  then show ?thesis by (simp add: normalize_upper_latin1 [OF assms] py_strip_idem)
qed

section \<open>The float grammar and the money parser\<close>

lemma takeWhile_none: "\<forall>c\<in>set r. \<not> P c \<Longrightarrow> takeWhile P r = []"
  by (cases r) auto

lemma set_float_strip: "set (float_strip s) \<subseteq> set s"
  by (auto simp: float_strip_def dest!: set_dropWhileD)

lemma set_parse_sign: "set (snd (parse_sign s)) \<subseteq> set s"
  by (auto simp: parse_sign_def split: list.splits)

lemma py_float_no_digit:
  assumes "\<forall>c\<in>set s. \<not> is_digit c"
  shows "py_float s = None"
proof -
  obtain neg r where pr: "parse_sign (filter (\<lambda>c. c \<noteq> 95) (float_strip s)) = (neg, r)"
    by (cases "parse_sign (filter (\<lambda>c. c \<noteq> 95) (float_strip s))")
  have "set r \<subseteq> set s"
    using set_parse_sign [of "filter (\<lambda>c. c \<noteq> 95) (float_strip s)"] set_float_strip [of s] pr
    by auto
  with assms have nd: "\<forall>c\<in>set r. \<not> is_digit c" by blast
  then have ip: "takeWhile is_digit r = []" by (rule takeWhile_none)
  have fp: "takeWhile is_digit r' = []" if "dropWhile is_digit r = c # r'" for c r'
  proof -
    have "set r' \<subseteq> set r" using that set_dropWhileD [of _ is_digit r] by auto
    with nd show ?thesis by (intro takeWhile_none) blast
  qed
  show ?thesis
    by (cases "dropWhile is_digit r")
      (simp_all add: py_float_def Let_def pr ip fp del: dropWhile_eq_Nil_conv)
qed

lemma mem_dropWhile: "x \<in> set s \<Longrightarrow> \<not> P x \<Longrightarrow> x \<in> set (dropWhile P s)"
  by (induction s) auto

lemma mem_float_strip: "x \<in> set s \<Longrightarrow> \<not> float_space s x \<Longrightarrow> x \<in> set (float_strip s)"
  by (simp add: float_strip_def mem_dropWhile)

lemma mem_parse_sign: "x \<in> set s \<Longrightarrow> x \<noteq> 45 \<Longrightarrow> x \<noteq> 43 \<Longrightarrow> x \<in> set (snd (parse_sign s))"
  by (auto simp: parse_sign_def split: list.splits)

lemma parse_exponent_bad:
  assumes "x \<in> set s" "\<not> is_digit x" "x \<noteq> 101" "x \<noteq> 69" "x \<noteq> 45" "x \<noteq> 43"
  shows "parse_exponent s = None"
proof (cases s)
  case Nil
  with assms show ?thesis by simp
next
  case (Cons c r)
  show ?thesis
  proof (cases "c = 101 \<or> c = 69")
    case True
    with assms Cons have "x \<in> set r" by auto
    with assms have "x \<in> set (snd (parse_sign r))" by (simp add: mem_parse_sign)
    with assms have "\<not> list_all is_digit (snd (parse_sign r))" by (auto simp: list_all_iff)
    moreover obtain neg ds where "parse_sign r = (neg, ds)" by (cases "parse_sign r")
    ultimately show ?thesis using True Cons by (simp add: parse_exponent_def)
  next
    case False
    with Cons show ?thesis by (simp add: parse_exponent_def)
  qed
qed

lemma py_float_bad_char:
  assumes x: "x \<in> set s" and ns: "\<not> float_space s x" and nd: "\<not> is_digit x"
    and ne: "x \<noteq> 101" "x \<noteq> 69" "x \<noteq> 45" "x \<noteq> 43" and np: "x \<noteq> 46" and nu: "x \<noteq> 95"
  shows "py_float s = None"
proof -
  obtain neg r where pr: "parse_sign (filter (\<lambda>c. c \<noteq> 95) (float_strip s)) = (neg, r)"
    by (cases "parse_sign (filter (\<lambda>c. c \<noteq> 95) (float_strip s))")
  have "x \<in> set (filter (\<lambda>c. c \<noteq> 95) (float_strip s))"
    using x ns nu by (simp add: mem_float_strip)
  then have "x \<in> set (snd (parse_sign (filter (\<lambda>c. c \<noteq> 95) (float_strip s))))"
    using ne by (intro mem_parse_sign) auto
  with pr have xr: "x \<in> set r" by simp
  then have x1: "x \<in> set (dropWhile is_digit r)" using nd by (rule mem_dropWhile)
  then obtain c r' where r1: "dropWhile is_digit r = c # r'"
    by (cases "dropWhile is_digit r") auto
  show ?thesis
  proof (cases "c = 46")
    case True
    with x1 r1 np have "x \<in> set r'" by auto
    then have "x \<in> set (dropWhile is_digit r')" using nd by (rule mem_dropWhile)
    then have "parse_exponent (dropWhile is_digit r') = None"
      using nd ne by (intro parse_exponent_bad [of x]) auto
    with True r1 pr show ?thesis by (simp add: py_float_def Let_def)
  next
    case False
    from x1 r1 have "parse_exponent (c # r') = None"
      using nd ne by (intro parse_exponent_bad [of x]) auto
    with False r1 pr show ?thesis by (simp add: py_float_def Let_def)
  qed
qed

lemma float_space_comma: "\<not> float_space s 44"
  by (simp add: float_space_def in_range_def is_space_def)

lemma py_float_comma: "44 \<in> set s \<Longrightarrow> py_float s = None"
  by (rule py_float_bad_char [of 44]) (simp_all add: float_space_comma is_digit_def in_range_def)

lemma try_parse_money_rule:
  "try_parse_money raw =
     (case raw of None \<Rightarrow> None
      | Some r \<Rightarrow> if r = [] then None
                  else decision_rule (filter money_keep (py_upper (py_strip r))))"
proof (cases raw)
  case None
  then show ?thesis by (simp add: try_parse_money_def)
next
  case (Some r)
  define s where "s = filter money_keep (py_upper (py_strip r))"
  have e: "py_float [] = None" by (rule py_float_no_digit) simp
  have "(if s = [] then None
         else case (if 44 \<in> set s \<and> 46 \<in> set s
                    then py_float (filter (\<lambda>c. c \<noteq> 44) s) else None) of
                Some v \<Rightarrow> Some v
              | None \<Rightarrow>
                  (case (if 44 \<in> set s \<and> 46 \<notin> set s
                         then py_float (map (\<lambda>c. if c = 44 then 46 else c) s) else None) of
                     Some v \<Rightarrow> Some v | None \<Rightarrow> py_float s)) = decision_rule s"
  proof (cases "s = []")
    case True
    then show ?thesis by (simp add: decision_rule_def e)
  next
    case False
    then show ?thesis
      by (cases "44 \<in> set s"; cases "46 \<in> set s")
        (simp_all add: decision_rule_def py_float_comma split: option.splits)
  qed
  then show ?thesis
    unfolding Some try_parse_money_def Let_def s_def [symmetric] option.case
    by (simp only:)
qed

lemma money_keep_no_digit: "money_keep c \<Longrightarrow> \<not> is_digit c"
  by (auto simp: money_keep_def is_digit_def in_range_def)

lemma try_parse_money_None: "try_parse_money raw = None"
proof -
  have "decision_rule (filter money_keep t) = None" for t
  proof -
    let ?s = "filter money_keep t"
    have nd: "\<forall>c\<in>set ?s. \<not> is_digit c" by (simp add: money_keep_no_digit)
    then have "py_float ?s = None" by (rule py_float_no_digit)
    moreover have "py_float (filter (\<lambda>c. c \<noteq> 44) ?s) = None"
      using nd by (intro py_float_no_digit) auto
    moreover have "py_float (map (\<lambda>c. if c = 44 then 46 else c) ?s) = None"
      using nd by (intro py_float_no_digit) (auto simp: is_digit_def in_range_def)
    ultimately show ?thesis by (simp add: decision_rule_def)
  qed
  then show ?thesis by (simp add: try_parse_money_rule split: option.splits)
qed

section \<open>Evaluation of the library functions on literals\<close>

lemmas ucd_eval = U_def normalize_upper_def nfd_def canonical_order_def decomp_def
  canonical_decomposition_def ccc_def ccc_ranges_def in_range_def is_Mn_def py_upper_def
  upper_cp_def py_strip_def is_space_def

lemmas float_eval = py_float_def float_strip_def float_space_def parse_sign_def
  parse_exponent_def scale10_def digits_val_def is_digit_def in_range_def is_space_def Let_def

section \<open>The text normalizer (C8)\<close>

text \<open>
  C8, as stated, asks for \<open>normalize(normalize(s)) = normalize(s)\<close> on every string.
  It fails on the three code points U+1D16D, U+0941, U+1D165: the middle one is a
  nonspacing mark of combining class 0, so the first pass leaves the two musical marks
  (classes 226 and 216) in their order and then deletes the starter between them; the
  second pass finds them adjacent and puts them into canonical order.
\<close>

theorem normalize_upper_not_idempotent:
  "normalize_upper (normalize_upper [119149, 2369, 119141])
     \<noteq> normalize_upper [119149, 2369, 119141]"
  by (simp add: ucd_eval)

text \<open>
  C8, amended: the normalizer is idempotent on every string of Latin-1 characters
  (code points below U+0100); empty or absent input yields the empty string; and
  \<open>normalize("Cl\'iente") = normalize("CLIENTE") = "CLIENTE"\<close>, the first with U+00ED.
\<close>

theorem normalize_upper_idempotent_latin1:
  "((\<forall>c\<in>set s. c < 256) \<longrightarrow> normalize_upper (normalize_upper s) = normalize_upper s)
   \<and> normalize_upper [] = [] \<and> normalize_upper_opt None = []
   \<and> normalize_upper (U ''Cl'' @ [237] @ U ''ente'') = U ''CLIENTE''
   \<and> normalize_upper (U ''CLIENTE'') = U ''CLIENTE''"
proof -
  have "normalize_upper (U ''Cl'' @ [237] @ U ''ente'') = U ''CLIENTE''"
    by (simp add: ucd_eval)
  moreover have "normalize_upper (U ''CLIENTE'') = U ''CLIENTE''"
    by (simp add: ucd_eval)
  moreover have "normalize_upper [] = []" by (simp add: normalize_upper_def)
  moreover have "normalize_upper_opt None = []" by (simp add: normalize_upper_opt_def)
  moreover have "(\<forall>c\<in>set s. c < 256) \<longrightarrow>
      normalize_upper (normalize_upper s) = normalize_upper s"
    using normalize_upper_idem_latin1 by blast
  ultimately show ?thesis by blast
qed

theorem normalize_upper_idempotent_latin1_witness:
  "list_all (\<lambda>c. c < 256) (U ''Cl'' @ [237] @ U ''ente'')
   \<and> normalize_upper (normalize_upper (U ''Cl'' @ [237] @ U ''ente''))
       = normalize_upper (U ''Cl'' @ [237] @ U ''ente'')"
  using normalize_upper_idempotent_latin1 [of "U ''Cl'' @ [237] @ U ''ente''"]
  by (simp add: U_def)

section \<open>The money parser (C2)\<close>

text \<open>
  C2: the money parser keeps digits, comma, period and minus and then applies the
  decision rule, so that \<open>parseMoney("1,234.56") = 1234.56\<close>.  The code does not: the
  character class of its pattern keeps backslash, \<open>d\<close>, comma, period and hyphen, and
  deletes the digits.  Of \<open>1,234.56\<close> the text \<open>,.\<close> remains, no number can be read
  from it and the result is none; the claim's rule, on the text with its digits kept,
  gives 1234.56.  (By \<open>try_parse_money_None\<close> the code returns none on every input.)
\<close>

theorem try_parse_money_deletes_digits:
  "try_parse_money (Some (U ''1,234.56'')) = None
   \<and> filter money_keep (py_upper (py_strip (U ''1,234.56''))) = U '',.''
   \<and> parseMoney_spec (U ''1,234.56'') = Some (123456 / 100)"
  by (simp add: try_parse_money_None parseMoney_spec_def spec_money_keep_def money_keep_def
      py_upper_def upper_cp_def py_strip_def U_def float_eval)

section \<open>The zone fallback (C9)\<close>

lemma split_ws_spaces:
  "\<forall>c\<in>set trail. is_space c \<Longrightarrow> split_ws cur trail = (if cur = [] then [] else [cur])"
  by (induction trail arbitrary: cur) auto

lemma split_ws_token:
  "\<forall>c\<in>set tok. \<not> is_space c \<Longrightarrow> split_ws cur (tok @ rest) = split_ws (cur @ tok) rest"
  by (induction tok arbitrary: cur) auto

lemma split_ws_last:
  assumes "tok \<noteq> []" "\<forall>c\<in>set tok. \<not> is_space c" "\<forall>c\<in>set trail. is_space c"
    and "pre = [] \<or> is_space (last pre)"
  shows "split_ws cur (pre @ tok @ trail) \<noteq> []
         \<and> last (split_ws cur (pre @ tok @ trail)) = (if pre = [] then cur @ tok else tok)"
  using assms(4)
proof (induction pre arbitrary: cur)
  case Nil
  with assms(1-3) show ?case by (simp add: split_ws_token split_ws_spaces)
next
  case (Cons c pre')
  show ?case
  proof (cases "is_space c")
    case True
    have "pre' = [] \<or> is_space (last pre')" using Cons.prems by (auto split: if_splits)
    from Cons.IH [OF this, of "[]"] True show ?thesis by simp
  next
    case False
    with Cons.prems have ne: "pre' \<noteq> []" by auto
    with Cons.prems have "pre' = [] \<or> is_space (last pre')" by auto
    from Cons.IH [OF this, of "cur @ [c]"] False ne show ?thesis by simp
  qed
qed

lemma strip_by_decompose:
  "s = takeWhile P s @ rev (dropWhile P (rev (dropWhile P s)))
         @ rev (takeWhile P (rev (dropWhile P s)))"
proof -
  let ?t = "dropWhile P s"
  have "?t = rev (rev ?t)" by simp
  also have "\<dots> = rev (takeWhile P (rev ?t) @ dropWhile P (rev ?t))"
    by (simp only: takeWhile_dropWhile_id)
  also have "\<dots> = rev (dropWhile P (rev ?t)) @ rev (takeWhile P (rev ?t))"
    by (rule rev_append)
  finally have "takeWhile P s @ ?t =
      takeWhile P s @ rev (dropWhile P (rev ?t)) @ rev (takeWhile P (rev ?t))"
    by (simp only:)
  then show ?thesis by (simp only: takeWhile_dropWhile_id)
qed

lemma strip_by_ends:
  assumes "rev (dropWhile P (rev (dropWhile P s))) \<noteq> []"
  shows "\<not> P (hd (rev (dropWhile P (rev (dropWhile P s)))))
         \<and> \<not> P (last (rev (dropWhile P (rev (dropWhile P s)))))"
proof -
  let ?u = "dropWhile P (rev (dropWhile P s))"
  from assms have u: "?u \<noteq> []" by simp
  then have "\<not> P (hd ?u)" by (rule hd_dropWhile)
  with u have l: "\<not> P (last (rev ?u))" by (simp add: last_rev)
  have e: "dropWhile P (rev ?u) = rev ?u" by (rule dropWhile_rev_dropWhile)
  have "dropWhile P (rev ?u) \<noteq> []" unfolding e by (rule assms)
  then have "\<not> P (hd (dropWhile P (rev ?u)))" by (rule hd_dropWhile)
  then have "\<not> P (hd (rev ?u))" unfolding e .
  with l show ?thesis by blast
qed

text \<open>
  C9, as stated, strips exactly one trailing comma from the last token.  The code strips
  every comma at either end of it: for the project name \<open>Zone ,North\<close> it returns
  \<open>North\<close>, where the claim's rule gives \<open>,North\<close>.
\<close>

theorem zone_from_project_counterexample:
  "zone_from_project (U ''Zone ,North'') = Inr (U ''North'')
   \<and> zoneFromProject_spec (U ''Zone ,North'') = U '',North''"
  by (simp add: zone_from_project_def zoneFromProject_spec_def py_split_def strip_commas_def
      U_def is_space_def in_range_def)

text \<open>
  C9, amended: for every project name with a character that is not white space, the zone
  fallback returns the last white-space-delimited token of the name with all its leading
  and trailing commas stripped; empty input yields the empty string.  (The name is
  \<open>pre @ tok @ trail\<close>: \<open>tok\<close> is the last token when it has no white space, only
  white space follows it and white space or nothing precedes it.)
\<close>

theorem zone_from_project_last_token:
  "zone_from_project [] = Inr []
   \<and> (tok \<noteq> [] \<and> (\<forall>c\<in>set tok. \<not> is_space c) \<and> (\<forall>c\<in>set trail. is_space c)
        \<and> (pre = [] \<or> is_space (last pre))
      \<longrightarrow> zone_from_project (pre @ tok @ trail) = Inr (strip_commas tok))
   \<and> (\<exists>a b. tok = a @ strip_commas tok @ b \<and> (\<forall>c\<in>set a. c = 44) \<and> (\<forall>c\<in>set b. c = 44))
   \<and> (strip_commas tok \<noteq> [] \<longrightarrow> hd (strip_commas tok) \<noteq> 44 \<and> last (strip_commas tok) \<noteq> 44)"
proof (intro conjI impI)
  show "zone_from_project [] = Inr []" by (simp add: zone_from_project_def)
next
  assume a: "tok \<noteq> [] \<and> (\<forall>c\<in>set tok. \<not> is_space c) \<and> (\<forall>c\<in>set trail. is_space c)
        \<and> (pre = [] \<or> is_space (last pre))"
  then have "split_ws [] (pre @ tok @ trail) \<noteq> []
     \<and> last (split_ws [] (pre @ tok @ trail)) = (if pre = [] then [] @ tok else tok)"
    by (intro split_ws_last) auto
  then have "py_split (pre @ tok @ trail) \<noteq> []" "last (py_split (pre @ tok @ trail)) = tok"
    by (auto simp: py_split_def)
  moreover from a have "pre @ tok @ trail \<noteq> []" by simp
  ultimately show "zone_from_project (pre @ tok @ trail) = Inr (strip_commas tok)"
  proof -
    assume 1: "py_split (pre @ tok @ trail) \<noteq> []"
      and 2: "last (py_split (pre @ tok @ trail)) = tok"
      and 3: "pre @ tok @ trail \<noteq> []"
    from 1 obtain t ts where sp: "py_split (pre @ tok @ trail) = t # ts"
      by (cases "py_split (pre @ tok @ trail)") auto
    from 2 have l: "last (t # ts) = tok" by (simp only: sp)
    have "zone_from_project (pre @ tok @ trail) = Inr (strip_commas (last (t # ts)))"
      unfolding zone_from_project_def using 3 by (simp only: sp list.case if_False)
    then show ?thesis by (simp only: l)
  qed
next
  let ?P = "\<lambda>c. c = (44::nat)"
  have "tok = takeWhile ?P tok @ strip_commas tok @ rev (takeWhile ?P (rev (dropWhile ?P tok)))"
    unfolding strip_commas_def by (rule strip_by_decompose)
  moreover have "\<forall>c\<in>set (takeWhile ?P tok). c = 44" by (auto dest: set_takeWhileD)
  moreover have "\<forall>c\<in>set (rev (takeWhile ?P (rev (dropWhile ?P tok)))). c = 44"
    by (auto dest: set_takeWhileD)
  ultimately show "\<exists>a b. tok = a @ strip_commas tok @ b \<and> (\<forall>c\<in>set a. c = 44) \<and> (\<forall>c\<in>set b. c = 44)"
    by blast
next
  assume "strip_commas tok \<noteq> []"
  then show "hd (strip_commas tok) \<noteq> 44" unfolding strip_commas_def
    using strip_by_ends [of "\<lambda>c. c = 44" tok] by blast
next
  assume "strip_commas tok \<noteq> []"
  then show "last (strip_commas tok) \<noteq> 44" unfolding strip_commas_def
    using strip_by_ends [of "\<lambda>c. c = 44" tok] by blast
qed

theorem zone_from_project_last_token_witness:
  "U '',North,,'' \<noteq> [] \<and> list_all (\<lambda>c. \<not> is_space c) (U '',North,,'')
   \<and> list_all is_space (U '' '') \<and> is_space (last (U ''Zone ''))
   \<and> zone_from_project (U ''Zone '' @ U '',North,,'' @ U '' '') = Inr (U ''North'')"
  using zone_from_project_last_token [of "U '',North,,''" "U '' ''" "U ''Zone ''"]
  by (simp add: U_def is_space_def in_range_def strip_commas_def)

section \<open>The date parser (C6)\<close>

lemmas date_eval = fmt_mmddyyyy_def iso_dateparse_def before_T_def strptime_ymd_def
  strptime_month_def strptime_day_def valid_date_def days_in_month_def is_leap_def
  strftime_mdY_def pad2_def pad4_def digits_val_def is_digit_def in_range_def U_def Let_def

lemma strftime_mdY_nonempty: "strftime_mdY d \<noteq> []"
  by (simp add: strftime_mdY_def pad2_def)

lemma before_T_nonempty: "val \<noteq> [] \<Longrightarrow> hd val \<noteq> 84 \<Longrightarrow> before_T val \<noteq> []"
  by (cases val) (simp_all add: before_T_def)

lemma fmt_iso_timestamp:
  "strptime_ymd (before_T (U ''2024-03-15T10:00:00'')) = Some \<lparr>year = 2024, month = 3, day = 15\<rparr>"
  by (simp add: date_eval)

lemma strftime_example: "strftime_mdY \<lparr>year = 2024, month = 3, day = 15\<rparr> = U ''03/15/2024''"
  by (simp add: date_eval)

text \<open>
  C6, as stated, has the parser return the original input unmodified when both attempts
  fail, and never the empty string for a non-empty input.  The code returns the variable
  \<open>s\<close>, which by then holds the text before the first \<open>T\<close>: for the input \<open>TBD\<close>,
  in which no parser finds a date, the result is the empty string.
\<close>

theorem fmt_mmddyyyy_counterexample:
  "fmt_mmddyyyy iso_dateparse (U ''TBD'') = [] \<and> U ''TBD'' \<noteq> []"
  by (simp add: date_eval)

text \<open>
  C6, amended: the date parser never raises.  Empty input gives the empty string.  When
  the permissive parser finds a date the result is that date as \<open>MM/DD/YYYY\<close>.  When it
  fails, the input is cut before its first \<open>T\<close> and read strictly as \<open>YYYY-MM-DD\<close>;
  on success the result is that date as \<open>MM/DD/YYYY\<close>, on failure it is the cut text,
  which is the input itself when the input has no \<open>T\<close>.  A non-empty input that does
  not begin with \<open>T\<close> never gives the empty string.  And
  \<open>parseDate("2024-03-15T10:00:00") = "03/15/2024"\<close>, whether the permissive parser
  reads that text as 15 March 2024 or fails on it.
\<close>

theorem fmt_mmddyyyy_cases:
  "fmt_mmddyyyy parse [] = []
   \<and> (val \<noteq> [] \<and> parse val = Some dt \<longrightarrow> fmt_mmddyyyy parse val = strftime_mdY dt)
   \<and> (val \<noteq> [] \<and> parse val = None \<and> strptime_ymd (before_T val) = Some d
        \<longrightarrow> fmt_mmddyyyy parse val = strftime_mdY d)
   \<and> (parse val = None \<and> strptime_ymd (before_T val) = None
        \<longrightarrow> fmt_mmddyyyy parse val = before_T val)
   \<and> prefix (before_T val) val \<and> 84 \<notin> set (before_T val)
   \<and> (84 \<notin> set val \<longrightarrow> before_T val = val)
   \<and> (val \<noteq> [] \<and> hd val \<noteq> 84 \<longrightarrow> fmt_mmddyyyy parse val \<noteq> [])
   \<and> (parse (U ''2024-03-15T10:00:00'') = None
        \<or> parse (U ''2024-03-15T10:00:00'') = Some \<lparr>year = 2024, month = 3, day = 15\<rparr>
      \<longrightarrow> fmt_mmddyyyy parse (U ''2024-03-15T10:00:00'') = U ''03/15/2024'')"
proof (intro conjI impI)
  show "fmt_mmddyyyy parse [] = []" by (simp add: fmt_mmddyyyy_def)
  show "fmt_mmddyyyy parse val = strftime_mdY dt" if "val \<noteq> [] \<and> parse val = Some dt"
    using that by (simp add: fmt_mmddyyyy_def)
  show "fmt_mmddyyyy parse val = strftime_mdY d"
    if "val \<noteq> [] \<and> parse val = None \<and> strptime_ymd (before_T val) = Some d"
    using that by (simp add: fmt_mmddyyyy_def)
  show "fmt_mmddyyyy parse val = before_T val"
    if "parse val = None \<and> strptime_ymd (before_T val) = None"
    using that by (cases "val = []") (simp_all add: fmt_mmddyyyy_def before_T_def)
  show "prefix (before_T val) val"
    unfolding before_T_def by (metis prefixI takeWhile_dropWhile_id)
  show "84 \<notin> set (before_T val)" by (auto simp: before_T_def dest: set_takeWhileD)
  show "before_T val = val" if "84 \<notin> set val"
    using that by (auto simp: before_T_def intro!: takeWhile_eq_all_conv [THEN iffD2])
  show "fmt_mmddyyyy parse val \<noteq> []" if "val \<noteq> [] \<and> hd val \<noteq> 84"
    using that before_T_nonempty [of val]
    by (auto simp: fmt_mmddyyyy_def Let_def strftime_mdY_nonempty split: option.splits)
  show "fmt_mmddyyyy parse (U ''2024-03-15T10:00:00'') = U ''03/15/2024''"
    if "parse (U ''2024-03-15T10:00:00'') = None
        \<or> parse (U ''2024-03-15T10:00:00'') = Some \<lparr>year = 2024, month = 3, day = 15\<rparr>"
  proof -
    have ne: "U ''2024-03-15T10:00:00'' \<noteq> []" by (simp add: U_def)
    from that show ?thesis
      by (auto simp: fmt_mmddyyyy_def ne fmt_iso_timestamp strftime_example)
  qed
qed

theorem fmt_mmddyyyy_cases_witness:
  "fmt_mmddyyyy iso_dateparse (U ''2024-03-15T10:00:00'') = U ''03/15/2024''
   \<and> fmt_mmddyyyy Map.empty (U ''2024-03-15T10:00:00'') = U ''03/15/2024''
   \<and> fmt_mmddyyyy Map.empty (U ''ASAP T'') = U ''ASAP ''
   \<and> fmt_mmddyyyy Map.empty (U ''next week'') = U ''next week''"
  using
    fmt_mmddyyyy_cases [of iso_dateparse "U ''2024-03-15T10:00:00''"
      "\<lparr>year = 2024, month = 3, day = 15\<rparr>"]
    fmt_mmddyyyy_cases [of Map.empty "U ''2024-03-15T10:00:00''" _
      "\<lparr>year = 2024, month = 3, day = 15\<rparr>"]
    fmt_mmddyyyy_cases [of Map.empty "U ''ASAP T''"]
    fmt_mmddyyyy_cases [of Map.empty "U ''next week''"]
  by (simp add: date_eval)

section \<open>The fee lookup (C7)\<close>

text \<open>
  C7: for every fee table, client and transaction type, the lookup upper-cases client
  and type; if the upper-cased client is a key of the table it returns that client's
  fraction for the type when present, else that client's \<open>ANY\<close> fraction when present,
  else 0; for a client that is not a key it returns 0.
\<close>

theorem get_fee_pct_lookup:
  "(fees_map (py_upper (or_empty cl)) = None \<longrightarrow> get_fee_pct fees_map cl tt = 0)
   \<and> (fees_map (py_upper (or_empty cl)) = Some types
        \<and> types (py_upper (or_empty tt)) = Some pct
      \<longrightarrow> get_fee_pct fees_map cl tt = pct)
   \<and> (fees_map (py_upper (or_empty cl)) = Some types
        \<and> types (py_upper (or_empty tt)) = None \<and> types (U ''ANY'') = Some pct
      \<longrightarrow> get_fee_pct fees_map cl tt = pct)
   \<and> (fees_map (py_upper (or_empty cl)) = Some types
        \<and> types (py_upper (or_empty tt)) = None \<and> types (U ''ANY'') = None
      \<longrightarrow> get_fee_pct fees_map cl tt = 0)"
  by (simp add: get_fee_pct_def Let_def)

theorem get_fee_pct_lookup_witness:
  "get_fee_pct demo_fees (Some (U ''Acme'')) (Some (U ''wo'')) = 1 / 10
   \<and> get_fee_pct demo_fees (Some (U ''Acme'')) (Some (U ''po'')) = 1 / 20
   \<and> get_fee_pct demo_fees (Some (U ''Bolt'')) None = 0
   \<and> get_fee_pct demo_fees (Some (U ''Other'')) (Some (U ''WO'')) = 0"
  using
    get_fee_pct_lookup [where fees_map = demo_fees and cl = "Some (U ''Acme'')"
      and types = "[U ''WO'' \<mapsto> 1 / 10, U ''ANY'' \<mapsto> 1 / 20]"
      and tt = "Some (U ''wo'')" and pct = "1 / 10"]
    get_fee_pct_lookup [where fees_map = demo_fees and cl = "Some (U ''Acme'')"
      and types = "[U ''WO'' \<mapsto> 1 / 10, U ''ANY'' \<mapsto> 1 / 20]"
      and tt = "Some (U ''po'')" and pct = "1 / 20"]
    get_fee_pct_lookup [where fees_map = demo_fees and cl = "Some (U ''Bolt'')"
      and types = "[U ''PO'' \<mapsto> 1 / 4]" and tt = None]
    get_fee_pct_lookup [where fees_map = demo_fees and cl = "Some (U ''Other'')"
      and tt = "Some (U ''WO'')"]
  by (simp add: demo_fees_def U_def py_upper_def upper_cp_def in_range_def or_empty_def)

section \<open>The alias resolver (C5)\<close>

lemma extract_step_resolves:
  "extract_step out cf =
     (if resolves cf Client then assign Client cf out
      else if resolves cf Zone then assign Zone cf out
      else if resolves cf Approved_value then assign Approved_value cf out
      else if resolves cf Invoice_date then assign Invoice_date cf out
      else if resolves cf Paid_flag then assign Paid_flag cf out
      else if resolves cf Paid_date then assign Paid_date cf out
      else if resolves cf Paid_amount then assign Paid_amount cf out
      else if resolves cf Priority then assign Priority cf out
      else if resolves cf Status then assign Status cf out
      else if resolves cf Canceled_flag then assign Canceled_flag cf out
      else if resolves cf Canceled_date then assign Canceled_date cf out
      else if resolves cf Type then assign Type cf out
      else if resolves cf Wo_number then assign Wo_number cf out
      else if resolves cf Materials_cost then assign Materials_cost cf out
      else if resolves cf Labor_cost then assign Labor_cost cf out
      else out)"
  by (simp only: extract_step_def Let_def resolves_def assign.simps)

lemma find_keys:
  "find P canonical_keys =
     (if P Client then Some Client else if P Zone then Some Zone
      else if P Approved_value then Some Approved_value
      else if P Invoice_date then Some Invoice_date
      else if P Paid_flag then Some Paid_flag else if P Paid_date then Some Paid_date
      else if P Paid_amount then Some Paid_amount else if P Priority then Some Priority
      else if P Status then Some Status else if P Canceled_flag then Some Canceled_flag
      else if P Canceled_date then Some Canceled_date else if P Type then Some Type
      else if P Wo_number then Some Wo_number
      else if P Materials_cost then Some Materials_cost
      else if P Labor_cost then Some Labor_cost else None)"
  by (simp only: canonical_keys_def find.simps)

lemma extract_step_first_hit:
  "extract_step out cf =
     (case find (resolves cf) canonical_keys of None \<Rightarrow> out | Some k \<Rightarrow> assign k cf out)"
  by (simp only: extract_step_resolves find_keys if_distrib [of "case_option _ _"] option.case
      cong: if_cong)

lemma assign_other: "k' \<noteq> k \<Longrightarrow> get_field k' (assign k cf out) = get_field k' out"
  by (cases k; cases k') simp_all

lemma norm_cp_below_192: "c < 192 \<Longrightarrow> norm_cp c = upper_cp c"
  by (simp add: norm_cp_def decomp_below_192 not_Mn_below_768 py_upper_def)

lemma normalize_upper_ascii:
  "list_all (\<lambda>c. c < 128) s \<Longrightarrow> normalize_upper s = py_strip (py_upper s)"
proof -
  assume a: "list_all (\<lambda>c. c < 128) s"
  then have "\<forall>c\<in>set s. c < 256" by (auto simp: list_all_iff)
  then have "normalize_upper s = py_strip (concat (map norm_cp s))"
    by (rule normalize_upper_latin1)
  moreover have "map norm_cp s = map upper_cp s"
    using a by (auto simp: list_all_iff norm_cp_below_192)
  ultimately show ?thesis by (simp add: py_upper_def)
qed

lemmas str_eval = U_def py_upper_def upper_cp_def py_lower_def lower_cp_def py_strip_def
  is_space_def in_range_def or_empty_def por_def truthy_def

lemma demo_cf_name: "normalize_upper (or_empty (cf_name demo_cf)) = U ''PAID DATE''"
  by (simp add: demo_cf_def normalize_upper_ascii str_eval)

lemma demo_cf_first: "find (resolves demo_cf) canonical_keys = Some Paid_flag"
  by (simp add: find_keys resolves_def demo_cf_name alias_hit_def U_def)

text \<open>
  C5: the alias resolver reports a hit for a canonical key exactly when the normalized
  label equals a registered alias of that key or a registered alias is a substring of
  the normalized label; and for each raw field at most one canonical key is assigned,
  namely the first key in the fixed order of the canonical keys whose alias set hits:
  one step of the loop is the assignment of that key, which leaves every other key as it
  was, and it changes nothing when no key hits.
\<close>

theorem alias_resolution:
  "(alias_hit n A \<longleftrightarrow> n \<in> set A \<or> (\<exists>a\<in>set A. \<exists>p q. n = p @ a @ q))
   \<and> extract_step out cf =
       (case find (resolves cf) canonical_keys of None \<Rightarrow> out | Some k \<Rightarrow> assign k cf out)
   \<and> (k' \<noteq> k \<longrightarrow> get_field k' (assign k cf out) = get_field k' out)"
  using alias_hit_iff [of n A] extract_step_first_hit [of out cf] assign_other [of k' k cf out]
  by blast

theorem alias_resolution_witness:
  "alias_hit (U ''PAID DATE'') (FIELD_ALIASES Paid_flag)
   \<and> alias_hit (U ''PAID DATE'') (FIELD_ALIASES Paid_date)
   \<and> extract_step init_fields demo_cf = assign Paid_flag demo_cf init_fields
   \<and> get_field Paid_date (extract_step init_fields demo_cf) = Text []"
proof -
  have h1: "alias_hit (U ''PAID DATE'') (FIELD_ALIASES Paid_flag)"
    by (simp add: alias_hit_def U_def)
  have h2: "alias_hit (U ''PAID DATE'') (FIELD_ALIASES Paid_date)"
    by (simp add: alias_hit_def U_def)
  have "Paid_date \<noteq> Paid_flag" by simp
  with alias_resolution [of "U ''PAID DATE''" "FIELD_ALIASES Paid_flag" init_fields demo_cf
      Paid_date Paid_flag]
  have e: "extract_step init_fields demo_cf = assign Paid_flag demo_cf init_fields"
    and o: "get_field Paid_date (assign Paid_flag demo_cf init_fields)
            = get_field Paid_date init_fields"
    by (simp_all only: demo_cf_first option.case simp_thms)
  have "get_field Paid_date init_fields = Text []" by (simp add: init_fields_def)
  with h1 h2 e o show ?thesis by (simp only: simp_thms)
qed

section \<open>The inclusion filter (C4)\<close>

lemma build_row_None_iff:
  "build_row e cutoff_date fees_map p project_zone ttype t = None \<longleftrightarrow>
     ignored_section (section_of (p_gid p) (t_memberships t))
     \<or> before_cutoff e cutoff_date (section_of (p_gid p) (t_memberships t)) t"
  by (simp add: build_row_def Let_def)

lemma ignored_section_iff:
  "ignored_section s \<longleftrightarrow>
     contains (U ''TRASH'') (normalize_upper s) \<or> contains (U ''ARCHIVE'') (normalize_upper s)"
  by (simp add: ignored_section_def IGNORED_SECTION_TOKENS_def)

lemma before_cutoff_iff:
  "before_cutoff e cutoff_date s t \<longleftrightarrow>
     (\<exists>cutoff d. cutoff_date = Some cutoff
        \<and> (contains (U ''DONE'') (normalize_upper s) \<or> contains (U ''CANCEL'') (normalize_upper s))
        \<and> dateparse e (or_empty (por (t_modified_at t) (t_created_at t))) = Some d
        \<and> date_less d cutoff)"
  by (auto simp: before_cutoff_def Let_def split: option.splits)

text \<open>
  C4: a task yields no record exactly when its normalized section label contains
  \<open>TRASH\<close> or \<open>ARCHIVE\<close>, or there is a cutoff date, the normalized section contains
  \<open>DONE\<close> or \<open>CANCEL\<close>, and the task's modification time stamp (the creation time
  stamp when that is missing or empty) parses to a date strictly earlier than the
  cutoff.  In every other case, an unparseable time stamp included, a record is emitted.
\<close>

theorem task_inclusion_filter:
  "build_row e cutoff_date fees_map p project_zone ttype t = None \<longleftrightarrow>
     contains (U ''TRASH'') (normalize_upper (section_of (p_gid p) (t_memberships t)))
     \<or> contains (U ''ARCHIVE'') (normalize_upper (section_of (p_gid p) (t_memberships t)))
     \<or> (\<exists>cutoff d. cutoff_date = Some cutoff
          \<and> (contains (U ''DONE'') (normalize_upper (section_of (p_gid p) (t_memberships t)))
               \<or> contains (U ''CANCEL'') (normalize_upper (section_of (p_gid p) (t_memberships t))))
          \<and> dateparse e (or_empty (por (t_modified_at t) (t_created_at t))) = Some d
          \<and> date_less d cutoff)"
  by (simp only: build_row_None_iff ignored_section_iff before_cutoff_iff disj_assoc)

lemma section_demo: "section_of (p_gid demo_project) (t_memberships (demo_task s m cfs)) = py_strip s"
  by (simp add: demo_project_def demo_task_def membership_gid_def membership_section_def
      py_str_def or_empty_def)

lemma norm_done: "normalize_upper (py_strip (U ''Done'')) = U ''DONE''"
  by (simp add: normalize_upper_ascii str_eval)

lemma norm_archive: "normalize_upper (py_strip (U ''Old archive 2023'')) = U ''OLD ARCHIVE 2023''"
  by (simp add: normalize_upper_ascii str_eval)

lemma ts_demo:
  "dateparse (demo_env ts) (or_empty (por (t_modified_at (demo_task s (U ''2024-01-10T08:00:00.000Z'') cfs))
      (t_created_at (demo_task s (U ''2024-01-10T08:00:00.000Z'') cfs))))
   = Some \<lparr>year = 2024, month = 1, day = 10\<rparr>"
  by (simp add: demo_env_def demo_task_def por_def truthy_def or_empty_def date_eval)

lemma contains_demo:
  "\<not> contains (U ''TRASH'') (U ''DONE'')" "\<not> contains (U ''ARCHIVE'') (U ''DONE'')"
  "contains (U ''DONE'') (U ''DONE'')" "contains (U ''ARCHIVE'') (U ''OLD ARCHIVE 2023'')"
  by (simp_all add: U_def)

theorem task_inclusion_filter_witness:
  "build_row (demo_env []) (Some \<lparr>year = 2024, month = 2, day = 1\<rparr>) Map.empty demo_project
      [] [] (demo_task (U ''Done'') (U ''2024-01-10T08:00:00.000Z'') []) = None
   \<and> build_row (demo_env []) (Some \<lparr>year = 2024, month = 1, day = 10\<rparr>) Map.empty demo_project
      [] [] (demo_task (U ''Done'') (U ''2024-01-10T08:00:00.000Z'') []) \<noteq> None
   \<and> build_row (demo_env []) None Map.empty demo_project
      [] [] (demo_task (U ''Done'') (U ''2024-01-10T08:00:00.000Z'') []) \<noteq> None
   \<and> build_row (demo_env []) None Map.empty demo_project
      [] [] (demo_task (U ''Old archive 2023'') (U ''2024-01-10T08:00:00.000Z'') []) = None"
  using
    task_inclusion_filter [of "demo_env []" "Some \<lparr>year = 2024, month = 2, day = 1\<rparr>" Map.empty
      demo_project "[]" "[]" "demo_task (U ''Done'') (U ''2024-01-10T08:00:00.000Z'') []"]
    task_inclusion_filter [of "demo_env []" "Some \<lparr>year = 2024, month = 1, day = 10\<rparr>" Map.empty
      demo_project "[]" "[]" "demo_task (U ''Done'') (U ''2024-01-10T08:00:00.000Z'') []"]
    task_inclusion_filter [of "demo_env []" None Map.empty
      demo_project "[]" "[]" "demo_task (U ''Done'') (U ''2024-01-10T08:00:00.000Z'') []"]
    task_inclusion_filter [of "demo_env []" None Map.empty
      demo_project "[]" "[]" "demo_task (U ''Old archive 2023'') (U ''2024-01-10T08:00:00.000Z'') []"]
  by (simp add: section_demo norm_done norm_archive ts_demo date_less_def contains_demo)

section \<open>The records of the data frame\<close>

lemma project_rows_mem:
  "project_rows body ts = Inr rs \<Longrightarrow> r \<in> set rs \<Longrightarrow> \<exists>t\<in>set ts. body t = Some (Inr r)"
proof (induction ts arbitrary: rs)
  case Nil
  then show ?case by simp
next
  case (Cons t ts)
  show ?case
  proof (cases "body t")
    case None
    with Cons.prems have "project_rows body ts = Inr rs" by simp
    from Cons.IH [OF this Cons.prems(2)] show ?thesis by auto
  next
    case (Some x)
    with Cons.prems(1) obtain r0 rs0 where x: "x = Inr r0"
      and rs0: "project_rows body ts = Inr rs0" and rs: "rs = r0 # rs0"
      by (auto split: sum.splits)
    from Cons.prems(2) rs consider "r = r0" | "r \<in> set rs0" by auto
    then show ?thesis
    proof cases
      case 1
      with Some x show ?thesis by simp
    next
      case 2
      from Cons.IH [OF rs0 2] show ?thesis by auto
    qed
  qed
qed

lemma build_rows_mem:
  "build_rows e c f ps = Inr rows \<Longrightarrow> r \<in> set rows \<Longrightarrow>
   \<exists>p\<in>set ps. \<exists>z tasks t. zone_from_project (p_name p) = Inr z
      \<and> fetch_project_tasks e (p_gid p) = Inr tasks \<and> t \<in> set tasks
      \<and> build_row e c f p z (project_type (p_name p)) t = Some (Inr r)"
proof (induction ps arbitrary: rows)
  case Nil
  then show ?case by simp
next
  case (Cons p ps)
  from Cons.prems(1) obtain z tasks mine rest where
    z: "zone_from_project (p_name p) = Inr z" and
    ts: "fetch_project_tasks e (p_gid p) = Inr tasks" and
    mine: "project_rows (build_row e c f p z (project_type (p_name p))) tasks = Inr mine" and
    rest: "build_rows e c f ps = Inr rest" and
    rows: "rows = mine @ rest"
    by (auto split: sum.splits)
  from Cons.prems(2) rows consider "r \<in> set mine" | "r \<in> set rest" by auto
  then show ?case
  proof cases
    case 1
    from project_rows_mem [OF mine 1] obtain t where "t \<in> set tasks"
      "build_row e c f p z (project_type (p_name p)) t = Some (Inr r)" by auto
    with z ts show ?thesis by auto
  next
    case 2
    from Cons.IH [OF rest 2] show ?thesis by auto
  qed
qed

lemma build_row_Some:
  "build_row e c f p z tt t = Some x \<Longrightarrow>
   assemble_row e f p z tt (section_of (p_gid p) (t_memberships t)) t = x"
  by (simp add: build_row_def Let_def split: if_splits)

lemma guarded_ratio:
  "(if b \<noteq> 0 then py_truediv a b else Inr 0) = Inr (if b = 0 then 0 else a / b)"
  by (simp add: py_truediv_def)

lemma assemble_row_total: "\<exists>r. assemble_row e f p z tt sec t = Inr r"
  by (simp add: assemble_row_def Let_def guarded_ratio)

lemma build_row_total:
  "build_row e c f p z tt t = None \<or> (\<exists>r. build_row e c f p z tt t = Some (Inr r))"
  using assemble_row_total [of e f p z tt "section_of (p_gid p) (t_memberships t)" t]
  by (auto simp: build_row_def Let_def)

lemma assemble_row_money:
  assumes "assemble_row e f p z tt sec t = Inr r"
  shows "Gastos_Total r = Gasto_Materiales r + Gasto_Labor r"
    and "Utilidad r = Valor_Aprobado_Real r - Gastos_Total r"
    and "Utilidad_pct r = (if Valor_Aprobado_Real r = 0 then 0 else Utilidad r / Valor_Aprobado_Real r)"
    and "Valor_Aprobado_Real r = Approved_Value r * (1 - get_fee_pct f (Some (Client_col r)) (Some tt))"
    and "Approved_Value r = or_zero (approved_value (extract_fields (wo_from_name e) t))"
    and "Gasto_Materiales r = materials_cost (extract_fields (wo_from_name e) t)"
    and "Gasto_Labor r = labor_cost (extract_fields (wo_from_name e) t)"
proof -
  from assms have r: "r = projr (assemble_row e f p z tt sec t)" by simp
  show "Gastos_Total r = Gasto_Materiales r + Gasto_Labor r"
    and "Utilidad r = Valor_Aprobado_Real r - Gastos_Total r"
    and "Utilidad_pct r = (if Valor_Aprobado_Real r = 0 then 0 else Utilidad r / Valor_Aprobado_Real r)"
    and "Valor_Aprobado_Real r = Approved_Value r * (1 - get_fee_pct f (Some (Client_col r)) (Some tt))"
    and "Approved_Value r = or_zero (approved_value (extract_fields (wo_from_name e) t))"
    and "Gasto_Materiales r = materials_cost (extract_fields (wo_from_name e) t)"
    and "Gasto_Labor r = labor_cost (extract_fields (wo_from_name e) t)"
    unfolding r by (simp_all add: assemble_row_def Let_def guarded_ratio)
qed

lemma assemble_row_paid:
  "assemble_row e f p z tt sec t = Inr r \<Longrightarrow>
   Paid r \<longleftrightarrow> paid_flag (extract_fields (wo_from_name e) t)
             \<or> paid_date (extract_fields (wo_from_name e) t) \<noteq> []"
proof -
  assume "assemble_row e f p z tt sec t = Inr r"
  then have r: "r = projr (assemble_row e f p z tt sec t)" by simp
  show ?thesis unfolding r by (simp add: assemble_row_def Let_def guarded_ratio)
qed

lemma extract_untouched:
  "\<forall>cf\<in>set cfs. find (resolves cf) canonical_keys \<noteq> Some k \<Longrightarrow>
   get_field k (foldl extract_step out cfs) = get_field k out"
proof (induction cfs arbitrary: out)
  case Nil
  then show ?case by simp
next
  case (Cons cf cfs)
  then have "find (resolves cf) canonical_keys \<noteq> Some k" by simp
  then have "get_field k (extract_step out cf) = get_field k out"
    by (cases "find (resolves cf) canonical_keys") (simp_all add: extract_step_first_hit assign_other)
  with Cons show ?case by simp
qed

lemma extract_fields_default:
  assumes "k \<noteq> Wo_number"
    and "\<forall>cf\<in>set (t_custom_fields t). find (resolves cf) canonical_keys \<noteq> Some k"
  shows "get_field k (extract_fields w t) = get_field k init_fields"
proof -
  have "get_field k (extract_fields w t)
        = get_field k (foldl extract_step init_fields (t_custom_fields t))"
    using assms(1) by (cases k) (simp_all add: extract_fields_def Let_def)
  with assms(2) show ?thesis by (simp add: extract_untouched)
qed

subsection \<open>The example tasks, evaluated\<close>

lemma resolves_text_cf:
  "resolves (text_cf L v) k = alias_hit (normalize_upper L) (FIELD_ALIASES k)"
  by (simp add: resolves_def text_cf_def or_empty_def)

lemma resolves_number_cf:
  "resolves (number_cf L x shown) k = alias_hit (normalize_upper L) (FIELD_ALIASES k)"
  by (simp add: resolves_def number_cf_def or_empty_def)

lemma norm_labels:
  "normalize_upper (U ''CLIENTE'') = U ''CLIENTE''"
  "normalize_upper (U ''VALOR APROBADO'') = U ''VALOR APROBADO''"
  "normalize_upper (U ''GASTO MATERIALES'') = U ''GASTO MATERIALES''"
  "normalize_upper (U ''GASTO LABOR'') = U ''GASTO LABOR''"
  "normalize_upper (U ''Fecha de pago'') = U ''FECHA DE PAGO''"
  "normalize_upper (U ''SCHEDULED'') = U ''SCHEDULED''"
  by (simp_all add: normalize_upper_ascii str_eval)

lemma first_hit_cliente:
  "find (resolves (text_cf (U ''CLIENTE'') v)) canonical_keys = Some Client"
  unfolding find_keys resolves_text_cf norm_labels by (simp add: alias_hit_def U_def)

lemma first_hit_valor:
  "find (resolves (number_cf (U ''VALOR APROBADO'') x shown)) canonical_keys = Some Approved_value"
  unfolding find_keys resolves_number_cf norm_labels by (simp add: alias_hit_def U_def)

lemma first_hit_materiales:
  "find (resolves (number_cf (U ''GASTO MATERIALES'') x shown)) canonical_keys = Some Materials_cost"
  unfolding find_keys resolves_number_cf norm_labels by (simp add: alias_hit_def U_def)

lemma first_hit_labor:
  "find (resolves (number_cf (U ''GASTO LABOR'') x shown)) canonical_keys = Some Labor_cost"
  unfolding find_keys resolves_number_cf norm_labels by (simp add: alias_hit_def U_def)

lemma first_hit_fecha_pago:
  "find (resolves (text_cf (U ''Fecha de pago'') v)) canonical_keys = Some Paid_date"
  unfolding find_keys resolves_text_cf norm_labels by (simp add: alias_hit_def U_def)


lemma text_cf_value [simp]:
  "or_empty (por (display_value (text_cf L v)) (text_value (text_cf L v))) = v"
  by (simp add: text_cf_def por_def truthy_def or_empty_def)

lemma number_cf_money [simp]: "money_of (number_cf L x shown) = Some x"
  by (simp add: money_of_def number_cf_def)

lemma e2e_extract:
  assumes "t_custom_fields t = e2e_fields"
  shows "extract_fields w t =
     init_fields\<lparr>client := U ''Acme'', approved_value := Some 1000,
       materials_cost := 200, labor_cost := 100, wo_number := w (or_empty (t_name t))\<rparr>"
  by (simp add: extract_fields_def assms e2e_fields_def extract_step_first_hit
      first_hit_cliente first_hit_valor first_hit_materiales first_hit_labor
      or_zero_def init_fields_def Let_def)

lemma e2e_section: "section_of (p_gid demo_project) e2e_memberships = U ''SCHEDULED''"
  by (simp add: e2e_memberships_def demo_project_def membership_gid_def
      membership_section_def py_str_def or_empty_def py_strip_def U_def is_space_def in_range_def)

lemma e2e_not_ignored: "\<not> ignored_section (U ''SCHEDULED'')"
  unfolding ignored_section_iff norm_labels by (simp add: U_def)

lemma e2e_zone: "zone_from_project (p_name demo_project) = Inr (U ''(WO)'')"
  by (simp add: demo_project_def zone_from_project_def py_split_def strip_commas_def
      U_def is_space_def in_range_def)

lemma e2e_type: "project_type (p_name demo_project) = U ''WO''"
  by (simp add: demo_project_def project_type_def py_upper_def upper_cp_def U_def in_range_def)

lemma e2e_fee: "get_fee_pct e2e_fees (Some (U ''Acme'')) (Some (U ''WO'')) = 1 / 10"
  by (simp add: get_fee_pct_def e2e_fees_def or_empty_def py_upper_def upper_cp_def
      U_def in_range_def)

lemma e2e_status:
  "map_of COLUMN_STATUS_MAP (normalize_upper (U ''SCHEDULED'')) = Some (U ''Scheduled'')"
  unfolding norm_labels by (simp add: COLUMN_STATUS_MAP_def U_def)

lemma acme_nonempty: "U ''Acme'' \<noteq> []"
  by (simp add: U_def)

lemma e2e_build_row:
  assumes "t_memberships t = e2e_memberships"
  shows "build_row e None f demo_project z tt t
         = Some (assemble_row e f demo_project z tt (U ''SCHEDULED'') t)"
  by (simp add: build_row_def assms e2e_section e2e_not_ignored before_cutoff_def)

lemma e2e_dataframe:
  assumes "t_memberships t = e2e_memberships"
    and "fetch_project_tasks e (U ''1'') = Inr [t]"
  shows "\<exists>r. assemble_row e f demo_project (U ''(WO)'') (U ''WO'') (U ''SCHEDULED'') t = Inr r
           \<and> build_dataframe e [demo_project] [] f = Inr [r]"
proof -
  obtain r where r: "assemble_row e f demo_project (U ''(WO)'') (U ''WO'') (U ''SCHEDULED'') t = Inr r"
    using assemble_row_total by blast
  have "fetch_project_tasks e (p_gid demo_project) = Inr [t]"
    using assms(2) by (simp add: demo_project_def)
  then have "build_dataframe e [demo_project] [] f = Inr [r]"
    by (simp add: build_dataframe_def cutoff_of_def e2e_zone e2e_type
        e2e_build_row [OF assms(1)] r)
  with r show ?thesis by blast
qed

lemma e2e_row:
  assumes "t_custom_fields t = e2e_fields"
    and "assemble_row e e2e_fees demo_project (U ''(WO)'') (U ''WO'') (U ''SCHEDULED'') t = Inr r"
  shows "Zone_col r = U ''(WO)''" "Type_col r = U ''WO''" "Client_col r = U ''Acme''"
    "Approved_Value r = 1000" "Valor_Aprobado_Real r = 900" "Utilidad r = 600"
    "Logical_Status r = U ''Scheduled''" "Gastos_Total r = 300" "Utilidad_pct r = 2 / 3"
proof -
  from assms(2) have r:
    "r = projr (assemble_row e e2e_fees demo_project (U ''(WO)'') (U ''WO'') (U ''SCHEDULED'') t)"
    by simp
  show "Zone_col r = U ''(WO)''" "Type_col r = U ''WO''" "Client_col r = U ''Acme''"
    "Approved_Value r = 1000" "Valor_Aprobado_Real r = 900" "Utilidad r = 600"
    "Logical_Status r = U ''Scheduled''" "Gastos_Total r = 300" "Utilidad_pct r = 2 / 3"
    unfolding r
    by (simp_all add: assemble_row_def Let_def guarded_ratio e2e_extract [OF assms(1)]
        init_fields_def acme_nonempty e2e_fee e2e_status or_zero_def)
qed

lemma demo_task_parts [simp]:
  "t_custom_fields (demo_task s m cfs) = cfs"
  "t_memberships (demo_task (U ''SCHEDULED'') m cfs) = e2e_memberships"
  by (simp_all add: demo_task_def e2e_memberships_def)

lemma demo_env_parts [simp]:
  "fetch_project_tasks (demo_env ts) (U ''1'') = Inr ts"
  "wo_from_name (demo_env ts) = (\<lambda>name. [])"
  by (simp_all add: demo_env_def)

lemma demo_dataframe:
  "\<exists>r. assemble_row (demo_env [demo_task (U ''SCHEDULED'') m cfs]) f demo_project
          (U ''(WO)'') (U ''WO'') (U ''SCHEDULED'') (demo_task (U ''SCHEDULED'') m cfs) = Inr r
      \<and> build_dataframe (demo_env [demo_task (U ''SCHEDULED'') m cfs]) [demo_project] [] f
          = Inr [r]"
  by (rule e2e_dataframe) simp_all

lemma negative_extract:
  "materials_cost (extract_fields w negative_task) = - 5"
  by (simp add: extract_fields_def negative_task_def extract_step_first_hit
      first_hit_materiales or_zero_def init_fields_def Let_def)

lemma bare_extract: "extract_fields w bare_task = init_fields\<lparr>wo_number := w (or_empty (t_name bare_task))\<rparr>"
  by (simp add: extract_fields_def bare_task_def init_fields_def Let_def)

lemma paid_extract:
  "paid_flag (extract_fields w paid_task) = False"
  "paid_date (extract_fields w paid_task) = U ''01/05/2024''"
proof -
  have s: "py_strip (U ''01/05/2024'') = U ''01/05/2024''"
    by (simp add: py_strip_def U_def is_space_def in_range_def)
  have "extract_fields w paid_task =
      init_fields\<lparr>paid_date := py_strip (U ''01/05/2024''),
        wo_number := w (or_empty (t_name paid_task))\<rparr>"
    by (simp add: extract_fields_def paid_task_def extract_step_first_hit
        first_hit_fecha_pago init_fields_def Let_def)
  then show "paid_flag (extract_fields w paid_task) = False"
    "paid_date (extract_fields w paid_task) = U ''01/05/2024''"
    by (simp_all add: s init_fields_def)
qed


section \<open>The derived financial fields (C3)\<close>

text \<open>
  C3, as stated, has both costs non-negative in every emitted record.  The code takes a
  cost from the number the custom field holds and checks no sign: a task whose field
  \<open>GASTO MATERIALES\<close> holds \<open>-5\<close> gives a record with a materials cost of \<open>-5\<close>.
\<close>

theorem negative_cost_counterexample:
  "map Gasto_Materiales (case build_dataframe (demo_env [negative_task]) [demo_project] []
                           Map.empty of Inl err \<Rightarrow> [] | Inr rows \<Rightarrow> rows) = [- 5]
   \<and> (- 5 :: real) < 0"
proof -
  obtain r where a: "assemble_row (demo_env [negative_task]) Map.empty demo_project
        (U ''(WO)'') (U ''WO'') (U ''SCHEDULED'') negative_task = Inr r"
    and d: "build_dataframe (demo_env [negative_task]) [demo_project] [] Map.empty = Inr [r]"
    using demo_dataframe unfolding negative_task_def by blast
  have "Gasto_Materiales r = - 5"
    using assemble_row_money(6) [OF a] negative_extract by simp
  with d show ?thesis by simp
qed

text \<open>
  C3, amended: assembling a record never raises, so a task is either filtered out or
  gives a record.  Every emitted record is built from a task the task source returned,
  and in it, with the approved value (0 if absent), the fee fraction looked up for the
  record's client and the project's type, the materials cost (0 if absent) and the labor
  cost (0 if absent):  net approved value = approved value * (1 - fee fraction);
  total cost = materials cost + labor cost, where each cost is the value extracted from
  the task, of either sign;  profit = net approved value - total cost;  and profit ratio
  = profit / net approved value when the net approved value is not zero, and 0 when it
  is.  (Amounts are real numbers here, so there is no NaN to speak of; a division by
  zero is an exception of the model, and the guard on zero is the code's.)
\<close>

theorem derived_financials:
  "(build_row e cutoff_date fees_map p0 pz0 tt0 t0 = None
      \<or> (\<exists>r0. build_row e cutoff_date fees_map p0 pz0 tt0 t0 = Some (Inr r0)))
   \<and> (build_dataframe e projects done_cutoff fees_map = Inr rows \<and> r \<in> set rows \<longrightarrow>
       Gastos_Total r = Gasto_Materiales r + Gasto_Labor r
       \<and> Utilidad r = Valor_Aprobado_Real r - Gastos_Total r
       \<and> Utilidad_pct r =
           (if Valor_Aprobado_Real r = 0 then 0 else Utilidad r / Valor_Aprobado_Real r)
       \<and> (\<exists>p\<in>set projects. \<exists>pz tasks t.
             fetch_project_tasks e (p_gid p) = Inr tasks \<and> t \<in> set tasks
             \<and> build_row e (cutoff_of e done_cutoff) fees_map p pz (project_type (p_name p)) t
                 = Some (Inr r)
             \<and> Valor_Aprobado_Real r =
                 Approved_Value r
                   * (1 - get_fee_pct fees_map (Some (Client_col r))
                            (Some (project_type (p_name p))))
             \<and> Approved_Value r = or_zero (approved_value (extract_fields (wo_from_name e) t))
             \<and> Gasto_Materiales r = materials_cost (extract_fields (wo_from_name e) t)
             \<and> Gasto_Labor r = labor_cost (extract_fields (wo_from_name e) t)
             \<and> ((\<forall>cf\<in>set (t_custom_fields t).
                    find (resolves cf) canonical_keys \<noteq> Some Approved_value)
                  \<longrightarrow> Approved_Value r = 0)
             \<and> ((\<forall>cf\<in>set (t_custom_fields t).
                    find (resolves cf) canonical_keys \<noteq> Some Materials_cost)
                  \<longrightarrow> Gasto_Materiales r = 0)
             \<and> ((\<forall>cf\<in>set (t_custom_fields t).
                    find (resolves cf) canonical_keys \<noteq> Some Labor_cost)
                  \<longrightarrow> Gasto_Labor r = 0)))"
proof (intro conjI impI)
  show "build_row e cutoff_date fees_map p0 pz0 tt0 t0 = None
      \<or> (\<exists>r0. build_row e cutoff_date fees_map p0 pz0 tt0 t0 = Some (Inr r0))"
    by (rule build_row_total)
next
  assume a: "build_dataframe e projects done_cutoff fees_map = Inr rows \<and> r \<in> set rows"
  then obtain p pz tasks t where p: "p \<in> set projects"
    and ts: "fetch_project_tasks e (p_gid p) = Inr tasks" "t \<in> set tasks"
    and br: "build_row e (cutoff_of e done_cutoff) fees_map p pz (project_type (p_name p)) t
             = Some (Inr r)"
    unfolding build_dataframe_def by (blast dest: build_rows_mem)
  note m = assemble_row_money [OF build_row_Some [OF br]]
  show "Gastos_Total r = Gasto_Materiales r + Gasto_Labor r" by (rule m(1))
  show "Utilidad r = Valor_Aprobado_Real r - Gastos_Total r" by (rule m(2))
  show "Utilidad_pct r =
      (if Valor_Aprobado_Real r = 0 then 0 else Utilidad r / Valor_Aprobado_Real r)"
    by (rule m(3))
  have d1: "(\<forall>cf\<in>set (t_custom_fields t).
               find (resolves cf) canonical_keys \<noteq> Some Approved_value)
             \<longrightarrow> Approved_Value r = 0"
    using extract_fields_default [of Approved_value t "wo_from_name e"] m(5)
    by (simp add: init_fields_def or_zero_def)
  have d2: "(\<forall>cf\<in>set (t_custom_fields t).
               find (resolves cf) canonical_keys \<noteq> Some Materials_cost)
             \<longrightarrow> Gasto_Materiales r = 0"
    using extract_fields_default [of Materials_cost t "wo_from_name e"] m(6)
    by (simp add: init_fields_def)
  have d3: "(\<forall>cf\<in>set (t_custom_fields t).
               find (resolves cf) canonical_keys \<noteq> Some Labor_cost)
             \<longrightarrow> Gasto_Labor r = 0"
    using extract_fields_default [of Labor_cost t "wo_from_name e"] m(7)
    by (simp add: init_fields_def)
  from p ts br m(4-7) d1 d2 d3
  show "\<exists>p\<in>set projects. \<exists>pz tasks t.
             fetch_project_tasks e (p_gid p) = Inr tasks \<and> t \<in> set tasks
             \<and> build_row e (cutoff_of e done_cutoff) fees_map p pz (project_type (p_name p)) t
                 = Some (Inr r)
             \<and> Valor_Aprobado_Real r =
                 Approved_Value r
                   * (1 - get_fee_pct fees_map (Some (Client_col r))
                            (Some (project_type (p_name p))))
             \<and> Approved_Value r = or_zero (approved_value (extract_fields (wo_from_name e) t))
             \<and> Gasto_Materiales r = materials_cost (extract_fields (wo_from_name e) t)
             \<and> Gasto_Labor r = labor_cost (extract_fields (wo_from_name e) t)
             \<and> ((\<forall>cf\<in>set (t_custom_fields t).
                    find (resolves cf) canonical_keys \<noteq> Some Approved_value)
                  \<longrightarrow> Approved_Value r = 0)
             \<and> ((\<forall>cf\<in>set (t_custom_fields t).
                    find (resolves cf) canonical_keys \<noteq> Some Materials_cost)
                  \<longrightarrow> Gasto_Materiales r = 0)
             \<and> ((\<forall>cf\<in>set (t_custom_fields t).
                    find (resolves cf) canonical_keys \<noteq> Some Labor_cost)
                  \<longrightarrow> Gasto_Labor r = 0)"
    by blast
qed

theorem derived_financials_witness:
  "(\<exists>r. build_dataframe e2e_env [demo_project] [] e2e_fees = Inr [r]
        \<and> Valor_Aprobado_Real r = 900 \<and> Gastos_Total r = 300
        \<and> Utilidad r = 600 \<and> Utilidad_pct r = 2 / 3)
   \<and> (\<exists>r. build_dataframe (demo_env [bare_task]) [demo_project] [] e2e_fees = Inr [r]
        \<and> Approved_Value r = 0 \<and> Valor_Aprobado_Real r = 0 \<and> Gastos_Total r = 0
        \<and> Utilidad r = 0 \<and> Utilidad_pct r = 0)"
proof
  obtain r where a: "assemble_row e2e_env e2e_fees demo_project
        (U ''(WO)'') (U ''WO'') (U ''SCHEDULED'') e2e_task = Inr r"
    and d: "build_dataframe e2e_env [demo_project] [] e2e_fees = Inr [r]"
    using demo_dataframe unfolding e2e_env_def e2e_task_def by blast
  have v: "Valor_Aprobado_Real r = 900" "Gasto_Materiales r = 200" "Gasto_Labor r = 100"
    using e2e_row(5) [OF _ a] assemble_row_money(6,7) [OF a] e2e_extract [of e2e_task]
    by (simp_all add: e2e_task_def init_fields_def)
  from d have i: "build_dataframe e2e_env [demo_project] [] e2e_fees = Inr [r] \<and> r \<in> set [r]"
    by simp
  note c = derived_financials [where e = e2e_env and projects = "[demo_project]"
      and done_cutoff = "[]" and fees_map = e2e_fees and rows = "[r]" and r = r,
      THEN conjunct2, THEN mp, OF i]
  from c [THEN conjunct1] v have g: "Gastos_Total r = 300" by simp
  from c [THEN conjunct2, THEN conjunct1] v g have u: "Utilidad r = 600" by simp
  from c [THEN conjunct2, THEN conjunct2, THEN conjunct1] v u
  have "Utilidad_pct r = 2 / 3" by simp
  note g u this
  then have "Gastos_Total r = 300" "Utilidad r = 600" "Utilidad_pct r = 2 / 3"
    by simp_all
  with d v show "\<exists>r. build_dataframe e2e_env [demo_project] [] e2e_fees = Inr [r]
        \<and> Valor_Aprobado_Real r = 900 \<and> Gastos_Total r = 300
        \<and> Utilidad r = 600 \<and> Utilidad_pct r = 2 / 3"
    by blast
next
  obtain r where a: "assemble_row (demo_env [bare_task]) e2e_fees demo_project
        (U ''(WO)'') (U ''WO'') (U ''SCHEDULED'') bare_task = Inr r"
    and d: "build_dataframe (demo_env [bare_task]) [demo_project] [] e2e_fees = Inr [r]"
    using demo_dataframe unfolding bare_task_def by blast
  have v: "Approved_Value r = 0" "Gasto_Materiales r = 0" "Gasto_Labor r = 0"
    using assemble_row_money(5,6,7) [OF a]
    by (simp_all add: bare_extract init_fields_def or_zero_def)
  have w: "Valor_Aprobado_Real r = 0"
    using assemble_row_money(4) [OF a] v by simp
  from d have i: "build_dataframe (demo_env [bare_task]) [demo_project] [] e2e_fees = Inr [r]
      \<and> r \<in> set [r]"
    by simp
  note c = derived_financials [where e = "demo_env [bare_task]" and projects = "[demo_project]"
      and done_cutoff = "[]" and fees_map = e2e_fees and rows = "[r]" and r = r,
      THEN conjunct2, THEN mp, OF i]
  from c [THEN conjunct1] v have g: "Gastos_Total r = 0" by simp
  from c [THEN conjunct2, THEN conjunct1] w g have u: "Utilidad r = 0" by simp
  from c [THEN conjunct2, THEN conjunct2, THEN conjunct1] w u
  have "Utilidad_pct r = 0" by simp
  note g u this
  then have "Gastos_Total r = 0" "Utilidad r = 0" "Utilidad_pct r = 0"
    by simp_all
  with d v w show "\<exists>r. build_dataframe (demo_env [bare_task]) [demo_project] [] e2e_fees = Inr [r]
        \<and> Approved_Value r = 0 \<and> Valor_Aprobado_Real r = 0 \<and> Gastos_Total r = 0
        \<and> Utilidad r = 0 \<and> Utilidad_pct r = 0"
    by blast
qed

section \<open>The paid flag (C10)\<close>

text \<open>
  C10: in every emitted record the paid flag is true if and only if the paid flag
  extracted from its task is true or the paid-date text extracted from it is not empty.
  In particular, as the example after the theorem shows, a task with no paid-flag field
  and a payment date is reported as paid.
\<close>

theorem paid_flag_rule:
  "build_dataframe e projects done_cutoff fees_map = Inr rows \<and> r \<in> set rows \<longrightarrow>
     (\<exists>p\<in>set projects. \<exists>pz tasks t.
        fetch_project_tasks e (p_gid p) = Inr tasks \<and> t \<in> set tasks
        \<and> build_row e (cutoff_of e done_cutoff) fees_map p pz (project_type (p_name p)) t
            = Some (Inr r)
        \<and> (Paid r \<longleftrightarrow> paid_flag (extract_fields (wo_from_name e) t)
                        \<or> paid_date (extract_fields (wo_from_name e) t) \<noteq> []))"
proof
  assume a: "build_dataframe e projects done_cutoff fees_map = Inr rows \<and> r \<in> set rows"
  then obtain p pz tasks t where p: "p \<in> set projects"
    and ts: "fetch_project_tasks e (p_gid p) = Inr tasks" "t \<in> set tasks"
    and br: "build_row e (cutoff_of e done_cutoff) fees_map p pz (project_type (p_name p)) t
             = Some (Inr r)"
    unfolding build_dataframe_def by (blast dest: build_rows_mem)
  have "Paid r \<longleftrightarrow> paid_flag (extract_fields (wo_from_name e) t)
                        \<or> paid_date (extract_fields (wo_from_name e) t) \<noteq> []"
    by (rule assemble_row_paid [OF build_row_Some [OF br]])
  with p ts br show "\<exists>p\<in>set projects. \<exists>pz tasks t.
        fetch_project_tasks e (p_gid p) = Inr tasks \<and> t \<in> set tasks
        \<and> build_row e (cutoff_of e done_cutoff) fees_map p pz (project_type (p_name p)) t
            = Some (Inr r)
        \<and> (Paid r \<longleftrightarrow> paid_flag (extract_fields (wo_from_name e) t)
                        \<or> paid_date (extract_fields (wo_from_name e) t) \<noteq> [])"
    by blast
qed

theorem paid_flag_rule_witness:
  "(\<exists>r. build_dataframe (demo_env [paid_task]) [demo_project] [] Map.empty = Inr [r] \<and> Paid r)
   \<and> \<not> paid_flag (extract_fields (wo_from_name (demo_env [paid_task])) paid_task)
   \<and> paid_date (extract_fields (wo_from_name (demo_env [paid_task])) paid_task)
       = U ''01/05/2024''"
proof -
  obtain r where
    d: "build_dataframe (demo_env [paid_task]) [demo_project] [] Map.empty = Inr [r]"
    using demo_dataframe unfolding paid_task_def by blast
  from paid_flag_rule [of "demo_env [paid_task]" "[demo_project]" "[]" Map.empty "[r]" r] d
  obtain t where "t \<in> set [paid_task]"
    and "Paid r \<longleftrightarrow> paid_flag (extract_fields (wo_from_name (demo_env [paid_task])) t)
           \<or> paid_date (extract_fields (wo_from_name (demo_env [paid_task])) t) \<noteq> []"
    by (auto simp: demo_project_def)
  then have "Paid r" by (simp add: paid_extract U_def)
  with d show ?thesis by (auto simp: paid_extract)
qed

section \<open>The end-to-end example (C1)\<close>

text \<open>
  C1, as stated, has \<open>zone = "North"\<close> in the record of the example.  The task has no
  zone field, so the zone is the last token of the project name \<open>Zone North (WO)\<close>,
  which is \<open>(WO)\<close>.
\<close>

theorem end_to_end_zone_counterexample:
  "map Zone_col (case build_dataframe e2e_env [demo_project] [] e2e_fees of
                   Inl err \<Rightarrow> [] | Inr rows \<Rightarrow> rows) = [U ''(WO)'']
   \<and> U ''(WO)'' \<noteq> U ''North''"
proof -
  obtain r where a: "assemble_row e2e_env e2e_fees demo_project
        (U ''(WO)'') (U ''WO'') (U ''SCHEDULED'') e2e_task = Inr r"
    and d: "build_dataframe e2e_env [demo_project] [] e2e_fees = Inr [r]"
    using demo_dataframe unfolding e2e_env_def e2e_task_def by blast
  have "Zone_col r = U ''(WO)''"
    by (rule e2e_row(1) [OF _ a]) (simp add: e2e_task_def)
  moreover have "U ''(WO)'' \<noteq> U ''North''" by (simp add: U_def)
  ultimately show ?thesis using d by simp
qed

text \<open>
  C1, amended: for the single project with gid \<open>1\<close> and name \<open>Zone North (WO)\<close>,
  holding one task with the custom fields \<open>CLIENTE = "Acme"\<close>, \<open>VALOR APROBADO = 1000\<close>,
  \<open>GASTO MATERIALES = 200\<close>, \<open>GASTO LABOR = 100\<close> in section \<open>SCHEDULED\<close>, the
  fee table \<open>{"ACME": {"WO": 0.1}}\<close> and no cutoff, the pipeline emits exactly one record,
  with zone \<open>(WO)\<close>, type \<open>WO\<close>, client \<open>Acme\<close>, approved value 1000, net approved
  value 900, profit 600 and logical status \<open>Scheduled\<close>; whatever the task's other
  attributes, the date parser and the text miners are.
\<close>

theorem end_to_end_record:
  "t_custom_fields t = e2e_fields \<and> t_memberships t = e2e_memberships
     \<and> fetch_project_tasks e (U ''1'') = Inr [t]
   \<longrightarrow> (\<exists>r. build_dataframe e [demo_project] [] e2e_fees = Inr [r]
          \<and> Zone_col r = U ''(WO)'' \<and> Type_col r = U ''WO'' \<and> Client_col r = U ''Acme''
          \<and> Approved_Value r = 1000 \<and> Valor_Aprobado_Real r = 900 \<and> Utilidad r = 600
          \<and> Logical_Status r = U ''Scheduled'')"
proof
  assume a: "t_custom_fields t = e2e_fields \<and> t_memberships t = e2e_memberships
     \<and> fetch_project_tasks e (U ''1'') = Inr [t]"
  then have cf: "t_custom_fields t = e2e_fields" and ms: "t_memberships t = e2e_memberships"
    and f: "fetch_project_tasks e (U ''1'') = Inr [t]" by simp_all
  from e2e_dataframe [OF ms f, of e2e_fees] obtain r where
    ar: "assemble_row e e2e_fees demo_project (U ''(WO)'') (U ''WO'') (U ''SCHEDULED'') t = Inr r"
    and d: "build_dataframe e [demo_project] [] e2e_fees = Inr [r]" by blast
  from d e2e_row [OF cf ar]
  show "\<exists>r. build_dataframe e [demo_project] [] e2e_fees = Inr [r]
          \<and> Zone_col r = U ''(WO)'' \<and> Type_col r = U ''WO'' \<and> Client_col r = U ''Acme''
          \<and> Approved_Value r = 1000 \<and> Valor_Aprobado_Real r = 900 \<and> Utilidad r = 600
          \<and> Logical_Status r = U ''Scheduled''"
    by blast
qed

theorem end_to_end_record_witness:
  "t_custom_fields e2e_task = e2e_fields \<and> t_memberships e2e_task = e2e_memberships
   \<and> fetch_project_tasks e2e_env (U ''1'') = Inr [e2e_task]
   \<and> (\<exists>r. build_dataframe e2e_env [demo_project] [] e2e_fees = Inr [r]
          \<and> Zone_col r = U ''(WO)'' \<and> Type_col r = U ''WO'' \<and> Client_col r = U ''Acme''
          \<and> Approved_Value r = 1000 \<and> Valor_Aprobado_Real r = 900 \<and> Utilidad r = 600
          \<and> Logical_Status r = U ''Scheduled'')"
  using end_to_end_record [of e2e_task e2e_env]
  by (simp add: e2e_task_def e2e_env_def)

end
